theory Spec2Isabelle
  imports Main "HOL-Library.Signed_Division"
begin

section \<open>Runes, strings and Go's run-time checks\<close>

text \<open>
  The editor addresses text by runes.  A Go string is modelled by the sequence of its
  code points (what \<^verbatim>\<open>[]rune(s)\<close> yields for well-formed UTF-8), so that
  \<^verbatim>\<open>string(runes)\<close> and \<^verbatim>\<open>[]rune(s)\<close> are the identity and string
  concatenation is list append.  Go's \<^verbatim>\<open>int\<close> is modelled by \<open>int\<close>: every
  quantity below is a length or an index of an in-memory slice, far from overflow.
\<close>

type_synonym rune = nat
type_synonym gostring = "rune list"

datatype error = IndexOutOfRange | SliceBoundsOutOfRange

definition bindE :: "error + 'a \<Rightarrow> ('a \<Rightarrow> error + 'b) \<Rightarrow> error + 'b" where
  "bindE m f = (case m of Inl e \<Rightarrow> Inl e | Inr x \<Rightarrow> f x)"

definition len :: "'a list \<Rightarrow> int" where
  "len xs = int (length xs)"

text \<open>\<^verbatim>\<open>xs[i]\<close>: a run-time panic outside \<open>0 \<le> i < len(xs)\<close>.\<close>

definition index :: "'a list \<Rightarrow> int \<Rightarrow> error + 'a" where
  "index xs i = (if 0 \<le> i \<and> i < len xs then Inr (xs ! nat i) else Inl IndexOutOfRange)"

text \<open>
  \<^verbatim>\<open>xs[lo:hi]\<close>.  Go panics when a bound exceeds the capacity; the model reports
  the panic as soon as a bound exceeds the length.
\<close>

definition slice :: "'a list \<Rightarrow> int \<Rightarrow> int \<Rightarrow> error + 'a list" where
  "slice xs lo hi =
     (if 0 \<le> lo \<and> lo \<le> hi \<and> hi \<le> len xs
      then Inr (take (nat hi - nat lo) (drop (nat lo) xs))
      else Inl SliceBoundsOutOfRange)"

definition sliceTo :: "'a list \<Rightarrow> int \<Rightarrow> error + 'a list" where
  "sliceTo xs hi = slice xs 0 hi"

definition sliceFrom :: "'a list \<Rightarrow> int \<Rightarrow> error + 'a list" where
  "sliceFrom xs lo = slice xs lo (len xs)"

text \<open>\<^verbatim>\<open>unicode.IsSpace\<close> of the Go standard library.\<close>

definition IsSpace :: "rune \<Rightarrow> bool" where
  "IsSpace r =
     (if r \<le> 255
      then r = 9 \<or> r = 10 \<or> r = 11 \<or> r = 12 \<or> r = 13 \<or> r = 32 \<or> r = 133 \<or> r = 160
      else r = 5760 \<or> (8192 \<le> r \<and> r \<le> 8202) \<or> r = 8232 \<or> r = 8233
           \<or> r = 8239 \<or> r = 8287 \<or> r = 12288)"

text \<open>\<^verbatim>\<open>utf8.RuneLen\<close>: the number of bytes of the UTF-8 encoding, \<open>-1\<close> for a
  value that is not a Unicode scalar.\<close>

definition RuneLen :: "rune \<Rightarrow> int" where
  "RuneLen r =
     (if r \<le> 127 then 1
      else if r \<le> 2047 then 2
      else if 55296 \<le> r \<and> r \<le> 57343 then - 1
      else if r \<le> 65535 then 3
      else if r \<le> 1114111 then 4
      else - 1)"

section \<open>display.go: wrapLine\<close>

text \<open>
  One iteration of \<^verbatim>\<open>for i, r := range runes\<close>.  The loop state is
  \<open>(parts, currentWidth, start)\<close>; \<open>W\<close> is \<^verbatim>\<open>e.contentWidth\<close>.  Go's \<^verbatim>\<open>%\<close>
  truncates towards zero (\<open>smod\<close>).
\<close>

definition wrapStep ::
  "int \<Rightarrow> gostring \<Rightarrow> gostring list \<times> int \<times> nat \<Rightarrow> nat \<Rightarrow> gostring list \<times> int \<times> nat" where
  "wrapStep W runes st i =
     (case st of (parts, currentWidth, start) \<Rightarrow>
        let r = runes ! i;
            rw = (if r = 9 then 4 - (currentWidth smod 4)
                  else if IsSpace r then 1
                  else RuneLen r)
        in if currentWidth + rw > W \<and> i > start
           then (parts @ [take (i - start) (drop start runes)], rw, i)
           else (parts, currentWidth + rw, start))"

definition wrapLine :: "int \<Rightarrow> gostring \<Rightarrow> gostring list" where
  "wrapLine W line =
     (if length line = 0 then [[]]
      else case foldl (wrapStep W line) ([], 0, 0) [0..<length line] of
             (parts, currentWidth, start) \<Rightarrow> parts @ [drop start line])"

section \<open>Strings: Split, Join, ReplaceAll\<close>

text \<open>\<^verbatim>\<open>strings.Split(s, "\n")\<close>: always at least one part.\<close>

fun splitNL :: "gostring \<Rightarrow> gostring list" where
  "splitNL [] = [[]]"
| "splitNL (c # cs) =
     (if c = 10 then [] # splitNL cs
      else (c # hd (splitNL cs)) # tl (splitNL cs))"

text \<open>\<^verbatim>\<open>strings.Join(lines, "\n")\<close>.\<close>

fun joinNL :: "gostring list \<Rightarrow> gostring" where
  "joinNL [] = []"
| "joinNL [l] = l"
| "joinNL (l # ls) = l @ [10] @ joinNL ls"

text \<open>
  \<^verbatim>\<open>strings.ReplaceAll(s, old, new)\<close>: non-overlapping occurrences, left to right;
  for an empty \<open>old\<close> Go inserts \<open>new\<close> before every rune and at the end.
\<close>

function ReplaceAll :: "gostring \<Rightarrow> gostring \<Rightarrow> gostring \<Rightarrow> gostring" where
  "ReplaceAll s old new =
     (if old = [] then new @ concat (map (\<lambda>c. c # new) s)
      else if s = [] then []
      else if take (length old) s = old then new @ ReplaceAll (drop (length old) s) old new
      else hd s # ReplaceAll (tl s) old new)"
  by pat_completeness auto
termination
  by (relation "measure (\<lambda>(s, old, new). length s)") auto

declare ReplaceAll.simps [simp del]

section \<open>The editor state\<close>

text \<open>undo.go: \<^verbatim>\<open>EditorState\<close>, one undo/redo snapshot.\<close>

record EditorState =
  Lines :: "gostring list"
  Cx :: int
  Cy :: int

text \<open>
  The \<^verbatim>\<open>Editor\<close> struct, restricted to the fields of the buffer that the functions
  below read or write.  Left out are the screen, the prompts, the LLM settings, the
  language tag, the GitHub project and the canvas table (\<^verbatim>\<open>canvases\<close>,
  \<^verbatim>\<open>currentCanvas\<close>): none of the functions modelled here reads them.  The undo and
  redo stacks grow at the end, as \<^verbatim>\<open>append\<close> does.
\<close>

record Editor =
  filename :: gostring
  lines :: "gostring list"
  cx :: int
  cy :: int
  offsetX :: int
  offsetY :: int
  dirty :: bool
  clipboard :: gostring
  height :: int
  contentWidth :: int
  contentHeight :: int
  selectStartX :: int
  selectStartY :: int
  selecting :: bool
  lineSelecting :: bool
  lastSearch :: gostring
  undoStack :: "EditorState list"
  redoStack :: "EditorState list"

section \<open>display.go: cursorDisplayPosition and ensureVisible\<close>

text \<open>
  The cell offset of a rune prefix inside a segment (the loops at lines 235--242 and
  251--257); \<open>rw\<close> is \<^verbatim>\<open>runewidth.RuneWidth\<close>, a function of an external library.
\<close>

definition cellOffset :: "(rune \<Rightarrow> int) \<Rightarrow> gostring \<Rightarrow> int" where
  "cellOffset rw rs =
     foldl (\<lambda>off r. if r = 9 then off + (4 - (off smod 4)) else off + rw r) 0 rs"

text \<open>The \<^verbatim>\<open>for segIndex, seg := range segs\<close> loop; \<open>None\<close> when it runs to its end.\<close>

fun findSegment ::
  "(rune \<Rightarrow> int) \<Rightarrow> int \<Rightarrow> gostring list \<Rightarrow> int \<Rightarrow> int \<Rightarrow> (int \<times> int) option" where
  "findSegment rw x [] segIndex segmentStartRune = None"
| "findSegment rw x (seg # segs) segIndex segmentStartRune =
     (let segEndRune = segmentStartRune + len seg
      in if x \<ge> segmentStartRune \<and> x \<le> segEndRune
         then Some (segIndex, cellOffset rw (take (nat (x - segmentStartRune)) seg))
         else findSegment rw x segs (segIndex + 1) segEndRune)"

text \<open>Lines 186--217: the defensive repair of the cursor and of an empty document.\<close>

definition cursorClamp :: "Editor \<Rightarrow> Editor" where
  "cursorClamp e0 =
     (let e1 = (if cy e0 < 0 then e0\<lparr>cy := 0\<rparr> else e0);
          e2 = (if cy e1 \<ge> len (lines e1)
                then (if len (lines e1) > 0 then e1\<lparr>cy := len (lines e1) - 1\<rparr> else e1\<lparr>cy := 0\<rparr>)
                else e1);
          e3 = (if cx e2 < 0 then e2\<lparr>cx := 0\<rparr> else e2);
          e4 = (if len (lines e3) = 0 then e3\<lparr>lines := [[]], cy := 0, cx := 0\<rparr> else e3)
      in if cy e4 < len (lines e4)
         then (if cx e4 > len (lines e4 ! nat (cy e4))
               then e4\<lparr>cx := len (lines e4 ! nat (cy e4))\<rparr> else e4)
         else (let e5 = e4\<lparr>cy := 0, cx := 0\<rparr>
               in if len (lines e5) = 0 then e5\<lparr>lines := [[]]\<rparr> else e5))"

text \<open>
  cursorDisplayPosition repairs the editor and returns
  \<open>(displayRow, segIndex, offsetInSegCells)\<close>.  After \<open>cursorClamp\<close> the line index is
  in range (lemma \<open>cursorClamp_inv\<close>), so \<^verbatim>\<open>e.lines[e.cy]\<close> cannot panic.
\<close>

definition cursorDisplayPosition :: "(rune \<Rightarrow> int) \<Rightarrow> Editor \<Rightarrow> Editor \<times> int \<times> int \<times> int" where
  "cursorDisplayPosition rw e0 =
     (let e1 = cursorClamp e0;
          totalBefore = sum_list (map (\<lambda>l. len (wrapLine (contentWidth e1) l))
                                      (take (nat (cy e1)) (lines e1)));
          segs = wrapLine (contentWidth e1) (lines e1 ! nat (cy e1));
          lineRunes = lines e1 ! nat (cy e1);
          e2 = (if cx e1 > len lineRunes then e1\<lparr>cx := len lineRunes\<rparr> else e1)
      in case findSegment rw (cx e2) segs 0 0 of
           Some (segIndex, offsetInSegCells) \<Rightarrow>
             (e2, totalBefore + segIndex, segIndex, offsetInSegCells)
         | None \<Rightarrow>
             (e2, totalBefore + len segs - 1, len segs - 1, cellOffset rw (last segs)))"

text \<open>Lines 264--284 of ensureVisible.\<close>

definition visibleClamp :: "Editor \<Rightarrow> Editor" where
  "visibleClamp e0 =
     (let e1 = (if len (lines e0) = 0 then e0\<lparr>lines := [[]], cy := 0, cx := 0\<rparr> else e0);
          e2 = (if cy e1 < 0 then e1\<lparr>cy := 0\<rparr> else e1);
          e3 = (if cy e2 \<ge> len (lines e2) then e2\<lparr>cy := len (lines e2) - 1\<rparr> else e2);
          e4 = (if cx e3 < 0 then e3\<lparr>cx := 0\<rparr> else e3)
      in if cy e4 < len (lines e4)
         then (if cx e4 > len (lines e4 ! nat (cy e4))
               then e4\<lparr>cx := len (lines e4 ! nat (cy e4))\<rparr> else e4)
         else e4)"

definition ensureVisible :: "(rune \<Rightarrow> int) \<Rightarrow> Editor \<Rightarrow> Editor" where
  "ensureVisible rw e0 =
     (case cursorDisplayPosition rw (visibleClamp e0) of
        (e1, dispIdx, segIndex, cells) \<Rightarrow>
          let visibleRows = (if contentHeight e1 - 4 < 1 then 1 else contentHeight e1 - 4)
          in if dispIdx < offsetY e1 then e1\<lparr>offsetY := dispIdx\<rparr>
             else if dispIdx \<ge> offsetY e1 + visibleRows
             then e1\<lparr>offsetY := dispIdx - visibleRows + 1\<rparr>
             else e1)"

section \<open>undo.go: the history stacks\<close>

definition snapshot :: "Editor \<Rightarrow> EditorState" where
  "snapshot e = \<lparr>Lines = lines e, Cx = cx e, Cy = cy e\<rparr>"

definition pushUndo :: "Editor \<Rightarrow> Editor" where
  "pushUndo e = e\<lparr>undoStack := undoStack e @ [snapshot e], redoStack := [], dirty := True\<rparr>"

definition undo :: "(rune \<Rightarrow> int) \<Rightarrow> Editor \<Rightarrow> Editor" where
  "undo rw e =
     (if length (undoStack e) = 0 then e
      else let currentState = snapshot e;
               lastState = last (undoStack e)
           in ensureVisible rw
                (e\<lparr>redoStack := redoStack e @ [currentState],
                   undoStack := butlast (undoStack e),
                   lines := Lines lastState, cx := Cx lastState, cy := Cy lastState\<rparr>))"



section \<open>Editing primitives (undo.go, display.go)\<close>

definition insertRune :: "rune \<Rightarrow> Editor \<Rightarrow> error + Editor" where
  "insertRune r e0 =
     (let e1 = pushUndo e0
      in bindE (index (lines e1) (cy e1)) (\<lambda>lineRunes.
           let e2 = (if cx e1 < 0 then e1\<lparr>cx := 0\<rparr> else e1)
           in bindE (sliceTo lineRunes (cx e2)) (\<lambda>left.
              bindE (sliceFrom lineRunes (cx e2)) (\<lambda>right.
                Inr (e2\<lparr>lines := (lines e2)[nat (cy e2) := left @ [r] @ right],
                        cx := cx e2 + 1, redoStack := [], dirty := True\<rparr>)))))"

definition backspace :: "Editor \<Rightarrow> error + Editor" where
  "backspace e0 =
     (if cx e0 > 0 then
        (let e = pushUndo e0
         in bindE (index (lines e) (cy e)) (\<lambda>lineRunes.
            bindE (sliceTo lineRunes (cx e - 1)) (\<lambda>a.
            bindE (sliceFrom lineRunes (cx e)) (\<lambda>b.
              Inr (e\<lparr>lines := (lines e)[nat (cy e) := a @ b], cx := cx e - 1, dirty := True\<rparr>)))))
      else if cy e0 > 0 then
        (let e = pushUndo e0
         in bindE (index (lines e) (cy e - 1)) (\<lambda>prev.
            bindE (index (lines e) (cy e)) (\<lambda>cur.
              let ls = (lines e)[nat (cy e - 1) := prev @ cur]
              in bindE (sliceTo ls (cy e)) (\<lambda>a.
                 bindE (sliceFrom ls (cy e + 1)) (\<lambda>b.
                   Inr (e\<lparr>lines := a @ b, cy := cy e - 1, cx := len prev, dirty := True\<rparr>))))))
      else Inr e0)"

definition newline :: "Editor \<Rightarrow> error + Editor" where
  "newline e0 =
     (let e = pushUndo e0
      in bindE (index (lines e) (cy e)) (\<lambda>lineRunes.
         bindE (sliceTo lineRunes (cx e)) (\<lambda>left.
         bindE (sliceFrom lineRunes (cx e)) (\<lambda>right.
           let ls = (lines e)[nat (cy e) := left]
           in bindE (sliceTo ls (cy e + 1)) (\<lambda>a.
              bindE (sliceFrom ls (cy e + 1)) (\<lambda>b.
                Inr (e\<lparr>lines := a @ [right] @ b, cy := cy e + 1, cx := 0, dirty := True\<rparr>)))))))"

text \<open>
  \<^verbatim>\<open>append(ls[:k], append([]string{x}, ls[k:]...)...)\<close> for an index \<open>0 \<le> k \<le> len(ls)\<close>.
\<close>

definition insertAt :: "'a list \<Rightarrow> int \<Rightarrow> 'a \<Rightarrow> 'a list" where
  "insertAt ls k x = take (nat k) ls @ [x] @ drop (nat k) ls"

text \<open>
  insertTextAtCursor, lines 305--317: the loop \<^verbatim>\<open>for e.cy >= len(e.lines)\<close> appends
  empty lines until the cursor line exists, then \<^verbatim>\<open>e.cx\<close> is clamped into the line.
  After this no index or slice of the function can be out of range.
\<close>

definition insertTextPrepare :: "Editor \<Rightarrow> Editor" where
  "insertTextPrepare e1 =
     (let e2 = (if cy e1 < 0 then e1\<lparr>cy := 0\<rparr> else e1);
          e3 = e2\<lparr>lines := lines e2 @ replicate (nat (cy e2 + 1 - len (lines e2))) []\<rparr>;
          e4 = (if cx e3 < 0 then e3\<lparr>cx := 0\<rparr> else e3)
      in if cx e4 > len (lines e4 ! nat (cy e4))
         then e4\<lparr>cx := len (lines e4 ! nat (cy e4))\<rparr> else e4)"

text \<open>The loop \<^verbatim>\<open>for i := 1; i < len(parts)-1; i++\<close> inserting the middle parts.\<close>

definition insertMiddle :: "Editor \<Rightarrow> gostring list \<Rightarrow> Editor" where
  "insertMiddle e middle =
     foldl (\<lambda>e insertLine.
              e\<lparr>lines := insertAt (lines e) (cy e + 1) insertLine, cy := cy e + 1\<rparr>)
           e middle"

text \<open>Lines 319--340: the splice itself, for the parts of the text.\<close>

definition insertTextEdit :: "gostring list \<Rightarrow> Editor \<Rightarrow> Editor" where
  "insertTextEdit parts e =
     (let lineRunes = lines e ! nat (cy e);
          left = take (nat (cx e)) lineRunes;
          right = drop (nat (cx e)) lineRunes
      in if length parts = 1 then
           e\<lparr>lines := (lines e)[nat (cy e) := left @ hd parts @ right],
             cx := cx e + len (hd parts), dirty := True\<rparr>
         else
           let origCy = cy e;
               e7 = insertMiddle (e\<lparr>lines := (lines e)[nat (cy e) := left @ hd parts]\<rparr>)
                      (butlast (tl parts))
           in e7\<lparr>lines := insertAt (lines e7) (cy e7 + 1) (last parts @ right),
                 cy := origCy + (len parts - 1), cx := len (last parts), dirty := True\<rparr>)"

definition insertTextAtCursor :: "(rune \<Rightarrow> int) \<Rightarrow> gostring \<Rightarrow> Editor \<Rightarrow> Editor" where
  "insertTextAtCursor rw text e0 =
     (let e1 = pushUndo e0;
          parts = splitNL text
      in if length parts = 0 then e1
         else ensureVisible rw (insertTextEdit parts (insertTextPrepare e1)))"

text \<open>
  pasteFromClipboard; \<open>clip\<close> is what \<^verbatim>\<open>clipboard.ReadAll()\<close> returns, \<open>None\<close> for an
  error.
\<close>

definition pasteFromClipboard :: "(rune \<Rightarrow> int) \<Rightarrow> gostring option \<Rightarrow> Editor \<Rightarrow> error + Editor" where
  "pasteFromClipboard rw clip e0 =
     (case clip of
        None \<Rightarrow> Inr e0
      | Some t \<Rightarrow>
          let text = ReplaceAll (ReplaceAll t [13, 10] [10]) [13] [10];
              pasteLines = splitNL text
          in if length pasteLines = 0 then Inr e0
             else
               let e1 = pushUndo e0
               in bindE (index (lines e1) (cy e1)) (\<lambda>lineRunes.
                    let cursorX = (if cx e1 > len lineRunes then len lineRunes else cx e1)
                    in bindE (sliceTo lineRunes cursorX) (\<lambda>leftPart.
                       bindE (sliceFrom lineRunes cursorX) (\<lambda>rightPart.
                         if length pasteLines = 1 then
                           Inr (ensureVisible rw
                                  (e1\<lparr>lines := (lines e1)[nat (cy e1) := leftPart @ hd pasteLines @ rightPart],
                                      cx := cursorX + len (hd pasteLines),
                                      dirty := True, redoStack := []\<rparr>))
                         else
                           (case foldl (\<lambda>(ls, insertIndex) p. (insertAt ls insertIndex p, insertIndex + 1))
                                   ((lines e1)[nat (cy e1) := leftPart @ hd pasteLines], cy e1 + 1)
                                   (butlast (tl pasteLines)) of
                              (ls, insertIndex) \<Rightarrow>
                                Inr (ensureVisible rw
                                       (e1\<lparr>lines := insertAt ls insertIndex (last pasteLines @ rightPart),
                                           cy := insertIndex, cx := len (last pasteLines),
                                           dirty := True, redoStack := []\<rparr>)))))))"

text \<open>cutLine.  A failing clipboard write only shows a message.\<close>

definition cutLine :: "(rune \<Rightarrow> int) \<Rightarrow> Editor \<Rightarrow> Editor" where
  "cutLine rw e0 =
     (if cy e0 \<ge> 0 \<and> cy e0 < len (lines e0) then
        let e = pushUndo e0;
            e1 = e\<lparr>clipboard := lines e ! nat (cy e),
                   lines := take (nat (cy e)) (lines e) @ drop (nat (cy e + 1)) (lines e)\<rparr>;
            e2 = (if cy e1 \<ge> len (lines e1) \<and> len (lines e1) > 0
                  then e1\<lparr>cy := len (lines e1) - 1\<rparr> else e1);
            e3 = (if len (lines e2) = 0 then e2\<lparr>lines := [[]], cy := 0, cx := 0\<rparr>
                  else if cx e2 > len (lines e2 ! nat (cy e2))
                       then e2\<lparr>cx := len (lines e2 ! nat (cy e2))\<rparr> else e2)
        in ensureVisible rw (e3\<lparr>dirty := True\<rparr>)
      else e0)"

section \<open>display.go: the selection\<close>

definition startLineSelection :: "Editor \<Rightarrow> Editor" where
  "startLineSelection e =
     (if \<not> selecting e
      then e\<lparr>selecting := True, lineSelecting := True, selectStartX := cx e, selectStartY := cy e\<rparr>
      else if \<not> lineSelecting e
      then e\<lparr>lineSelecting := True, selectStartX := cx e, selectStartY := cy e\<rparr>
      else e)"

definition endSelection :: "Editor \<Rightarrow> Editor" where
  "endSelection e = e\<lparr>selecting := False, lineSelecting := False\<rparr>"

text \<open>
  getSelectionRange.  In line mode \<^verbatim>\<open>e.lines[endLine]\<close> is guarded by
  \<^verbatim>\<open>endLine < len(e.lines)\<close> only: a negative \<open>endLine\<close> panics.
\<close>

definition getSelectionRange :: "Editor \<Rightarrow> error + (int \<times> int \<times> int \<times> int)" where
  "getSelectionRange e =
     (if \<not> selecting e then Inr (0, 0, 0, 0)
      else if lineSelecting e then
        (let startLine = (if selectStartY e > cy e then cy e else selectStartY e);
             endLine = (if selectStartY e > cy e then selectStartY e else cy e)
         in if endLine < len (lines e)
            then bindE (index (lines e) endLine) (\<lambda>l. Inr (startLine, 0, endLine, len l))
            else Inr (startLine, 0, endLine, 0))
      else
        (let startLine = selectStartY e; endLine = cy e;
             startCol = selectStartX e; endCol = cx e
         in if startLine > endLine \<or> (startLine = endLine \<and> startCol > endCol)
            then Inr (endLine, endCol, startLine, startCol)
            else Inr (startLine, startCol, endLine, endCol)))"

text \<open>The loops \<^verbatim>\<open>for i := a; i <= b; i++ { if i < len(e.lines) { append e.lines[i] } }\<close>.\<close>

fun selectWhole :: "gostring list \<Rightarrow> int list \<Rightarrow> error + gostring list" where
  "selectWhole ls [] = Inr []"
| "selectWhole ls (i # is) =
     (if i < len ls
      then bindE (index ls i) (\<lambda>l. bindE (selectWhole ls is) (\<lambda>r. Inr (l # r)))
      else selectWhole ls is)"

definition getSelectedText :: "Editor \<Rightarrow> error + gostring" where
  "getSelectedText e =
     bindE (getSelectionRange e) (\<lambda>(startLine0, startCol, endLine0, endCol).
       if startLine0 = 0 \<and> startCol = 0 \<and> endLine0 = 0 \<and> endCol = 0 then Inr []
       else if lineSelecting e then
         (let startLine1 = (if startLine0 < 0 then 0 else startLine0);
              endLine1 = (if endLine0 \<ge> len (lines e) then len (lines e) - 1 else endLine0);
              startLine = (if startLine1 > endLine1 then endLine1 else startLine1);
              endLine = (if startLine1 > endLine1 then startLine1 else endLine1)
          in bindE (selectWhole (lines e) [startLine..endLine]) (\<lambda>sel. Inr (joinNL sel)))
       else if startLine0 = endLine0 then
         (if startLine0 < len (lines e) then
            bindE (index (lines e) startLine0) (\<lambda>lineRunes.
              if startCol < endCol \<and> endCol \<le> len lineRunes
              then bindE (slice lineRunes startCol endCol) (\<lambda>x. Inr (joinNL [x]))
              else Inr (joinNL []))
          else Inr (joinNL []))
       else
         bindE (if startLine0 < len (lines e)
                then bindE (index (lines e) startLine0) (\<lambda>firstLineRunes.
                       if startCol < len firstLineRunes
                       then bindE (sliceFrom firstLineRunes startCol) (\<lambda>x. Inr [x])
                       else Inr [])
                else Inr []) (\<lambda>sel1.
         bindE (selectWhole (lines e) [startLine0 + 1..endLine0 - 1]) (\<lambda>sel2.
         bindE (if endLine0 < len (lines e)
                then bindE (index (lines e) endLine0) (\<lambda>lastLineRunes.
                       if endCol > 0 \<and> endCol \<le> len lastLineRunes
                       then bindE (sliceTo lastLineRunes endCol) (\<lambda>x. Inr [x])
                       else Inr [])
                else Inr []) (\<lambda>sel3.
           Inr (joinNL (sel1 @ sel2 @ sel3))))))"

text \<open>Lines 1946--1966: the end of deleteSelection.\<close>

definition deleteSelectionFinish :: "Editor \<Rightarrow> Editor" where
  "deleteSelectionFinish e0 =
     (let e1 = (endSelection e0)\<lparr>dirty := True, redoStack := []\<rparr>;
          e2 = (if cy e1 < 0 then e1\<lparr>cy := 0\<rparr> else e1);
          e3 = (if cy e2 \<ge> len (lines e2)
                then (if len (lines e2) - 1 < 0 then e2\<lparr>cy := 0\<rparr> else e2\<lparr>cy := len (lines e2) - 1\<rparr>)
                else e2);
          e4 = (if cx e3 < 0 then e3\<lparr>cx := 0\<rparr> else e3)
      in if cy e4 < len (lines e4)
         then (if cx e4 > len (lines e4 ! nat (cy e4))
               then e4\<lparr>cx := len (lines e4 ! nat (cy e4))\<rparr> else e4)
         else e4)"

text \<open>Lines 1887--1944: the removal, for the range \<open>r\<close> that getSelectionRange returned.\<close>

definition deleteSelectionBody :: "Editor \<Rightarrow> int \<times> int \<times> int \<times> int \<Rightarrow> error + Editor" where
  "deleteSelectionBody e r =
     (case r of (startLine0, startCol0, endLine0, endCol0) \<Rightarrow>
        let startLine1 = (if startLine0 < 0 then 0 else startLine0);
            endLine1 = (if endLine0 \<ge> len (lines e) then len (lines e) - 1 else endLine0);
            startLine = (if startLine1 > endLine1 then endLine1 else startLine1);
            endLine = (if startLine1 > endLine1 then startLine1 else endLine1)
        in if lineSelecting e then
             bindE (sliceTo (lines e) startLine) (\<lambda>a.
             bindE (sliceFrom (lines e) (endLine + 1)) (\<lambda>b.
               let e1 = e\<lparr>lines := a @ b, cy := startLine\<rparr>;
                   e2 = (if cy e1 \<ge> len (lines e1) then e1\<lparr>cy := len (lines e1) - 1\<rparr> else e1)
               in Inr (if cy e2 < 0 then e2\<lparr>cy := 0, cx := 0\<rparr> else e2\<lparr>cx := 0\<rparr>)))
           else if startLine = endLine then
             (if startLine \<ge> 0 \<and> startLine < len (lines e) then
                let lineRunes = lines e ! nat startLine;
                    startCol = (if startCol0 < 0 then 0 else startCol0);
                    endCol = (if endCol0 > len lineRunes then len lineRunes else endCol0)
                in bindE
                     (if startCol < endCol then
                        bindE (sliceTo lineRunes startCol) (\<lambda>a.
                        bindE (sliceFrom lineRunes endCol) (\<lambda>b.
                          Inr (e\<lparr>lines := (lines e)[nat startLine := a @ b]\<rparr>)))
                      else Inr e)
                     (\<lambda>e1. Inr (e1\<lparr>cx := startCol, cy := startLine\<rparr>))
              else Inr e)
           else
             (if startLine \<ge> 0 \<and> startLine < len (lines e)
                 \<and> endLine \<ge> 0 \<and> endLine < len (lines e) then
                let firstLineRunes = lines e ! nat startLine;
                    lastLineRunes = lines e ! nat endLine;
                    startCol = (if startCol0 < 0 then 0 else startCol0);
                    endCol = (if endCol0 > len lastLineRunes then len lastLineRunes else endCol0)
                in bindE
                     (if startCol \<le> len firstLineRunes \<and> endCol \<le> len lastLineRunes then
                        bindE (sliceTo firstLineRunes startCol) (\<lambda>a.
                        bindE (sliceFrom lastLineRunes endCol) (\<lambda>b.
                        bindE (sliceTo (lines e) startLine) (\<lambda>pre.
                        bindE (sliceFrom (lines e) (endLine + 1)) (\<lambda>post.
                          Inr (e\<lparr>lines := pre @ [a @ b] @ post\<rparr>)))))
                      else Inr e)
                     (\<lambda>e1. Inr (e1\<lparr>cy := startLine, cx := startCol\<rparr>))
              else Inr e))"

definition deleteSelection :: "Editor \<Rightarrow> error + Editor" where
  "deleteSelection e0 =
     (if \<not> selecting e0 then Inr e0
      else
        let e = pushUndo e0
        in bindE (getSelectionRange e) (\<lambda>r.
           bindE (deleteSelectionBody e r) (\<lambda>e3. Inr (deleteSelectionFinish e3))))"

section \<open>Loading and saving\<close>

text \<open>
  The normalisation of NewEditor and openFile (and of openOrCreateCanvasForFile):
  \<^verbatim>\<open>strings.Split(strings.ReplaceAll(content, "\r\n", "\n"), "\n")\<close>.
\<close>

definition fileLines :: "gostring \<Rightarrow> gostring list" where
  "fileLines content = splitNL (ReplaceAll content [13, 10] [10])"

text \<open>
  NewEditor; \<open>content\<close> is what \<^verbatim>\<open>os.ReadFile(path)\<close> returns, \<open>None\<close> for an error
  (the function reads the file twice; the model gives both reads the same result).
  The function builds canvas 1 with the loaded lines and copies it into the editor
  (syncCanvasToEditor) before it sets the fields below; the buffer fields that result
  are the ones given here.
\<close>

definition NewEditor :: "gostring \<Rightarrow> gostring option \<Rightarrow> Editor" where
  "NewEditor path content =
     (let loaded = (if path \<noteq> []
                    then (case content of Some data \<Rightarrow> fileLines data | None \<Rightarrow> [[]])
                    else [[]])
      in \<lparr>filename = path, lines = loaded, cx = 0, cy = 0, offsetX = 0, offsetY = 0,
          dirty = False, clipboard = [], height = 35, contentWidth = 115, contentHeight = 35,
          selectStartX = 0, selectStartY = 0, selecting = False, lineSelecting = False,
          lastSearch = [], undoStack = [], redoStack = []\<rparr>)"

text \<open>
  openFile, after the path has been resolved; \<open>content\<close> as for NewEditor.  A read
  error shows a message and leaves the editor unchanged.  The closing
  syncEditorToCanvas writes the buffer into the canvas table only.
\<close>

definition openFile :: "(rune \<Rightarrow> int) \<Rightarrow> gostring \<Rightarrow> gostring option \<Rightarrow> Editor \<Rightarrow> Editor" where
  "openFile rw path content e =
     (case content of
        None \<Rightarrow> e
      | Some data \<Rightarrow>
          ensureVisible rw
            (e\<lparr>filename := path, lines := fileLines data, cx := 0, cy := 0,
               offsetX := 0, offsetY := 0, dirty := False,
               undoStack := [], redoStack := []\<rparr>))"

text \<open>
  persist, for an editor without GitHub project.  The file system is a map from paths to
  contents; \<open>writeOk\<close> tells whether \<^verbatim>\<open>os.WriteFile\<close> succeeds.  The result carries
  whether the returned error is nil.
\<close>

type_synonym disk = "gostring \<rightharpoonup> gostring"

definition persist :: "bool \<Rightarrow> Editor \<times> disk \<Rightarrow> bool \<times> Editor \<times> disk" where
  "persist writeOk st =
     (case st of (e, d) \<Rightarrow>
        let content = joinNL (lines e)
        in if writeOk then (True, e\<lparr>dirty := False\<rparr>, d(filename e \<mapsto> content))
           else (False, e, d))"


section \<open>display.go: handleKey, the cases of a rune key and of the Left key\<close>

text \<open>
  shouldAutoCloseBracket: \<^verbatim>\<open>runes[e.cx]\<close> is guarded from above only, so a negative
  \<open>cx\<close> panics.
\<close>

definition shouldAutoCloseBracket :: "Editor \<Rightarrow> error + bool" where
  "shouldAutoCloseBracket e =
     (if cy e < 0 \<or> cy e \<ge> len (lines e) then Inr False
      else let runes = lines e ! nat (cy e)
           in if cx e \<ge> len runes then Inr True
              else bindE (index runes (cx e)) (\<lambda>nextChar.
                     Inr (nextChar = 32 \<or> nextChar = 9 \<or> nextChar = 41 \<or> nextChar = 93
                          \<or> nextChar = 125 \<or> nextChar = 59 \<or> nextChar = 44 \<or> nextChar = 58)))"

definition getClosingBracket :: "rune \<Rightarrow> rune" where
  "getClosingBracket openBracket =
     (if openBracket = 40 then 41
      else if openBracket = 91 then 93
      else if openBracket = 123 then 125
      else if openBracket = 34 then 34
      else if openBracket = 39 then 39
      else 0)"

text \<open>
  The default case of the switch of handleKey (lines 1787--1819) for a key that carries
  the rune \<open>r\<close> (not a tab), with no prompt open, and the ensureVisible that follows the
  switch; \<open>alt\<close> is the Alt modifier.  The auto-closed bracket returns before that
  ensureVisible.
\<close>

definition handleRune :: "(rune \<Rightarrow> int) \<Rightarrow> bool \<Rightarrow> rune \<Rightarrow> Editor \<Rightarrow> error + Editor" where
  "handleRune rw alt r e =
     (if r \<noteq> 0 \<and> \<not> alt then
        bindE (if selecting e then deleteSelection e else Inr e) (\<lambda>e1.
          bindE (if r = 40 \<or> r = 91 \<or> r = 123 \<or> r = 34 \<or> r = 39
                 then shouldAutoCloseBracket e1 else Inr False) (\<lambda>auto.
            if auto \<and> getClosingBracket r \<noteq> 0 then
              (let e2 = insertTextAtCursor rw [r, getClosingBracket r] e1
               in Inr (e2\<lparr>cx := cx e2 - 1\<rparr>))
            else bindE (insertRune r e1) (\<lambda>e2. Inr (ensureVisible rw e2))))
      else Inr (ensureVisible rw e))"

text \<open>
  The case \<^verbatim>\<open>tcell.KeyLeft\<close> of the switch of handleKey (lines 1651--1671), with no
  prompt open, and the ensureVisible that follows the switch; \<open>shiftPressed\<close> is the
  Shift modifier.
\<close>

definition handleLeft :: "(rune \<Rightarrow> int) \<Rightarrow> bool \<Rightarrow> Editor \<Rightarrow> error + Editor" where
  "handleLeft rw shiftPressed e =
     bindE
       (if cx e > 0 then
          (let e1 = (if shiftPressed then startLineSelection e
                     else if selecting e then endSelection e else e)
           in Inr (e1\<lparr>cx := cx e1 - 1\<rparr>))
        else if cy e > 0 then
          (let e1 = (if shiftPressed then startLineSelection e
                     else if selecting e then endSelection e else e);
               e2 = e1\<lparr>cy := cy e1 - 1\<rparr>
           in bindE (index (lines e2) (cy e2)) (\<lambda>prevRunes.
                Inr (ensureVisible rw (e2\<lparr>cx := len prevRunes\<rparr>))))
        else if selecting e then Inr (endSelection e)
        else Inr e)
       (\<lambda>e1. Inr (ensureVisible rw e1))"

text \<open>The buffer invariant of the data model.\<close>

definition bufferInv :: "Editor \<Rightarrow> bool" where
  "bufferInv e \<longleftrightarrow>
     lines e \<noteq> [] \<and> 0 \<le> cy e \<and> cy e < len (lines e)
     \<and> 0 \<le> cx e \<and> cx e \<le> len (lines e ! nat (cy e))"

section \<open>Edit operations as data\<close>

text \<open>
  The editing operations that take an undo snapshot, as values, so that a sequence of
  edits can be run; \<open>Paste t\<close> is pasteFromClipboard with the clipboard holding \<open>t\<close>.
\<close>

datatype edit =
    InsertRune rune | InsertText gostring | Backspace | Newline | Paste gostring
  | CutLine | DeleteSelection

definition applyEdit :: "(rune \<Rightarrow> int) \<Rightarrow> edit \<Rightarrow> Editor \<Rightarrow> error + Editor" where
  "applyEdit rw ed e =
     (case ed of
        InsertRune r \<Rightarrow> insertRune r e
      | InsertText t \<Rightarrow> Inr (insertTextAtCursor rw t e)
      | Backspace \<Rightarrow> backspace e
      | Newline \<Rightarrow> newline e
      | Paste t \<Rightarrow> pasteFromClipboard rw (Some t) e
      | CutLine \<Rightarrow> Inr (cutLine rw e)
      | DeleteSelection \<Rightarrow> deleteSelection e)"



section \<open>brackets.go: the bracket matcher\<close>

record BracketPair =
  OpenLine :: int
  OpenCol :: int
  CloseLine :: int
  CloseCol :: int

text \<open>
  The two nested loops of findClosingBracket as one recursion on the scan position
  \<open>(lineIdx, colIdx)\<close>: a step inside the line, or the move to column 0 of the next line.
\<close>

function closingLoop ::
  "gostring list \<Rightarrow> rune \<Rightarrow> rune \<Rightarrow> int \<Rightarrow> int \<Rightarrow> int \<Rightarrow> int \<Rightarrow> int \<Rightarrow> BracketPair option" where
  "closingLoop ls opening closing startLine startCol nesting lineIdx colIdx =
     (if lineIdx < len ls then
        (if lineIdx < 0 \<or> lineIdx \<ge> len ls then None
         else
           let runes = ls ! nat lineIdx
           in if colIdx < len runes then
                (if colIdx < 0 \<or> colIdx \<ge> len runes
                 then closingLoop ls opening closing startLine startCol nesting (lineIdx + 1) 0
                 else
                   let char = runes ! nat colIdx
                   in if char = opening
                      then closingLoop ls opening closing startLine startCol (nesting + 1) lineIdx (colIdx + 1)
                      else if char = closing
                      then (if nesting - 1 = 0
                            then Some \<lparr>OpenLine = startLine, OpenCol = startCol,
                                       CloseLine = lineIdx, CloseCol = colIdx\<rparr>
                            else closingLoop ls opening closing startLine startCol (nesting - 1) lineIdx (colIdx + 1))
                      else closingLoop ls opening closing startLine startCol nesting lineIdx (colIdx + 1))
              else closingLoop ls opening closing startLine startCol nesting (lineIdx + 1) 0)
      else None)"
  by pat_completeness auto
termination
  by (relation "measures [\<lambda>(ls, opening, closing, startLine, startCol, nesting, lineIdx, colIdx).
                             nat (len ls - lineIdx),
                          \<lambda>(ls, opening, closing, startLine, startCol, nesting, lineIdx, colIdx).
                             nat (len (ls ! nat lineIdx) - colIdx)]")
     (auto simp: len_def)

declare closingLoop.simps [simp del]

definition findClosingBracket ::
  "gostring list \<Rightarrow> int \<Rightarrow> int \<Rightarrow> rune \<Rightarrow> rune \<Rightarrow> BracketPair option" where
  "findClosingBracket ls startLine startCol opening closing =
     (if startLine < 0 \<or> startLine \<ge> len ls then None
      else if startCol < 0 \<or> startCol \<ge> len (ls ! nat startLine) then None
      else closingLoop ls opening closing startLine startCol 1 startLine (startCol + 1))"

text \<open>
  The inner loop \<^verbatim>\<open>for colIdx >= 0\<close> of findOpeningBracket.  \<open>runes\<close> is the line that
  the outer loop read; the inner loop keeps it when it steps to the previous line.  The
  result is the pair found, or the loop variables \<open>(nesting, lineIdx, colIdx)\<close> at the exit.
\<close>

function openingInner ::
  "gostring list \<Rightarrow> rune \<Rightarrow> rune \<Rightarrow> int \<Rightarrow> int \<Rightarrow> gostring \<Rightarrow> int \<Rightarrow> int \<Rightarrow> int
     \<Rightarrow> BracketPair + (int \<times> int \<times> int)" where
  "openingInner ls opening closing startLine startCol runes nesting lineIdx colIdx =
     (if colIdx \<ge> 0 then
        (if colIdx < 0 \<or> colIdx \<ge> len runes then Inr (nesting, lineIdx, colIdx)
         else
           let char = runes ! nat colIdx;
               nesting' = (if char = closing then nesting + 1
                           else if char = opening then nesting - 1 else nesting)
           in if char \<noteq> closing \<and> char = opening \<and> nesting' = 0
              then Inl \<lparr>OpenLine = lineIdx, OpenCol = colIdx,
                         CloseLine = startLine, CloseCol = startCol\<rparr>
              else
                let colIdx' = colIdx - 1
                in if colIdx' < 0 \<and> lineIdx > 0 then
                     (let lineIdx' = lineIdx - 1
                      in if lineIdx' \<ge> 0 \<and> lineIdx' < len ls
                         then openingInner ls opening closing startLine startCol runes nesting'
                                lineIdx' (len (ls ! nat lineIdx') - 1)
                         else Inr (nesting', lineIdx', colIdx'))
                   else openingInner ls opening closing startLine startCol runes nesting'
                          lineIdx colIdx')
      else Inr (nesting, lineIdx, colIdx))"
  by pat_completeness auto
termination
  by (relation "measures [\<lambda>(ls, opening, closing, startLine, startCol, runes, nesting, lineIdx, colIdx).
                             nat lineIdx,
                          \<lambda>(ls, opening, closing, startLine, startCol, runes, nesting, lineIdx, colIdx).
                             nat (colIdx + 1)]")
     auto

declare openingInner.simps [simp del]

text \<open>
  The outer loop \<^verbatim>\<open>for lineIdx >= 0\<close> of findOpeningBracket, with fuel: every turn
  lowers \<open>lineIdx\<close> by at least one, so \<open>lineIdx + 1\<close> turns are enough
  (lemma \<open>openingOuter_fuel\<close>); \<open>None\<close> is the nil result.
\<close>

fun openingOuter ::
  "nat \<Rightarrow> gostring list \<Rightarrow> rune \<Rightarrow> rune \<Rightarrow> int \<Rightarrow> int \<Rightarrow> int \<Rightarrow> int \<Rightarrow> int
     \<Rightarrow> BracketPair option option" where
  "openingOuter 0 ls opening closing startLine startCol nesting lineIdx colIdx =
     (if lineIdx \<ge> 0 then None else Some None)"
| "openingOuter (Suc fuel) ls opening closing startLine startCol nesting lineIdx colIdx =
     (if lineIdx \<ge> 0 then
        (if lineIdx < 0 \<or> lineIdx \<ge> len ls then Some None
         else if colIdx < 0 then
           (let lineIdx' = lineIdx - 1;
                colIdx' = (if lineIdx' \<ge> 0 \<and> lineIdx' < len ls
                           then len (ls ! nat lineIdx') - 1 else colIdx)
            in openingOuter fuel ls opening closing startLine startCol nesting lineIdx' colIdx')
         else
           (case openingInner ls opening closing startLine startCol (ls ! nat lineIdx)
                   nesting lineIdx colIdx of
              Inl pair \<Rightarrow> Some (Some pair)
            | Inr (nesting', lineIdx1, colIdx1) \<Rightarrow>
                let lineIdx' = lineIdx1 - 1;
                    colIdx' = (if lineIdx' \<ge> 0 \<and> lineIdx' < len ls
                               then len (ls ! nat lineIdx') - 1 else colIdx1)
                in openingOuter fuel ls opening closing startLine startCol nesting' lineIdx' colIdx'))
      else Some None)"

definition findOpeningBracket ::
  "gostring list \<Rightarrow> int \<Rightarrow> int \<Rightarrow> rune \<Rightarrow> rune \<Rightarrow> BracketPair option option" where
  "findOpeningBracket ls startLine startCol opening closing =
     (if startLine < 0 \<or> startLine \<ge> len ls then Some None
      else if startCol < 0 \<or> startCol \<ge> len (ls ! nat startLine) then Some None
      else openingOuter (nat startLine + 1) ls opening closing startLine startCol 1
             startLine (startCol - 1))"

text \<open>The two bracket tables of findMatchingBracket.\<close>

definition openBrackets :: "rune \<Rightarrow> rune option" where
  "openBrackets c = (if c = 40 then Some 41 else if c = 91 then Some 93
                     else if c = 123 then Some 125 else None)"

definition closeBrackets :: "rune \<Rightarrow> rune option" where
  "closeBrackets c = (if c = 41 then Some 40 else if c = 93 then Some 91
                      else if c = 125 then Some 123 else None)"

text \<open>
  findMatchingBracket on the lines of the editor.  The outer \<open>option\<close> is termination of
  the backward scan within its fuel, the inner one the \<^verbatim>\<open>*BracketPair\<close> (nil is \<open>None\<close>).
\<close>

definition findMatchingBracket :: "gostring list \<Rightarrow> int \<Rightarrow> int \<Rightarrow> BracketPair option option" where
  "findMatchingBracket ls lineIdx colIdx =
     (if lineIdx < 0 \<or> lineIdx \<ge> len ls then Some None
      else if colIdx < 0 \<or> colIdx \<ge> len (ls ! nat lineIdx) then Some None
      else
        let char = ls ! nat lineIdx ! nat colIdx
        in case openBrackets char of
             Some closing \<Rightarrow> Some (findClosingBracket ls lineIdx colIdx char closing)
           | None \<Rightarrow>
               (case closeBrackets char of
                  Some opening \<Rightarrow> findOpeningBracket ls lineIdx colIdx opening char
                | None \<Rightarrow> Some None))"

text \<open>
  The forward scan as the specification words it: the runes from a position on, in
  document order across the line boundaries, each with its position (\<open>runesAfter\<close>
  starts one rune behind the position), and a nesting counter that goes up on the
  opening bracket and down on the closing one; the pair is found where it reaches 0.
\<close>

definition runesFrom :: "gostring list \<Rightarrow> nat \<Rightarrow> nat \<Rightarrow> ((nat \<times> nat) \<times> rune) list" where
  "runesFrom ls l c =
     concat (map (\<lambda>i. map (\<lambda>j. ((i, j), ls ! i ! j))
                          [(if i = l then c else 0)..<length (ls ! i)])
                 [l..<length ls])"

definition runesAfter :: "gostring list \<Rightarrow> nat \<Rightarrow> nat \<Rightarrow> ((nat \<times> nat) \<times> rune) list" where
  "runesAfter ls l c = runesFrom ls l (Suc c)"

fun counterScan :: "rune \<Rightarrow> rune \<Rightarrow> int \<Rightarrow> ((nat \<times> nat) \<times> rune) list \<Rightarrow> (nat \<times> nat) option" where
  "counterScan opening closing n [] = None"
| "counterScan opening closing n ((p, ch) # rest) =
     (if ch = opening then counterScan opening closing (n + 1) rest
      else if ch = closing
      then (if n - 1 = 0 then Some p else counterScan opening closing (n - 1) rest)
      else counterScan opening closing n rest)"

text \<open>
  The line-ending normalisation as the specification words it: every \<open>\r\n\<close> and every
  lone \<open>\r\<close> becomes \<open>\n\<close>.
\<close>

definition normalizeSpec :: "gostring \<Rightarrow> gostring" where
  "normalizeSpec content = ReplaceAll (ReplaceAll content [13, 10] [10]) [13] [10]"

text \<open>
  The replacement of \<open>\r\n\<close> alone, read off the content rune by rune: a \<open>\r\<close>
  followed by \<open>\n\<close> becomes one \<open>\n\<close>, every other rune stays.
\<close>

fun crlfToLf :: "gostring \<Rightarrow> gostring" where
  "crlfToLf [] = []"
| "crlfToLf [c] = [c]"
| "crlfToLf (c # d # s) =
     (if c = 13 \<and> d = 10 then 10 # crlfToLf s else c # crlfToLf (d # s))"

section \<open>Properties of wrapLine\<close>

lemma wrapStep_inv:
  assumes "wrapStep W runes (parts, cw, start) i = (parts', cw', start')"
    and "concat parts = take start runes" and "start \<le> i" and "i < length runes"
  shows "concat parts' = take start' runes \<and> start' \<le> Suc i"
proof (cases "cw + (if runes ! i = 9 then 4 - (cw smod 4)
                     else if IsSpace (runes ! i) then 1 else RuneLen (runes ! i)) > W
              \<and> i > start")
  case True
  with assms(1) have p: "parts' = parts @ [take (i - start) (drop start runes)]" and s: "start' = i"
    by (auto simp: wrapStep_def Let_def)
  have "take start runes @ take (i - start) (drop start runes) = take i runes"
    using assms(3) by (metis le_add_diff_inverse take_add)
  with p s assms(2) show ?thesis by simp
next
  case False
  with assms(1) have "parts' = parts" and "start' = start"
    by (auto simp: wrapStep_def Let_def split: if_splits)
  with assms(2,3) show ?thesis by simp
qed

lemma wrapLoop_inv:
  "n \<le> length runes \<Longrightarrow>
   foldl (wrapStep W runes) ([], 0, 0) [0..<n] = (parts, cw, start) \<Longrightarrow>
   concat parts = take start runes \<and> start \<le> n"
proof (induction n arbitrary: parts cw start)
  case 0
  then show ?case by simp
next
  case (Suc n)
  obtain p0 c0 s0 where st: "foldl (wrapStep W runes) ([], 0, 0) [0..<n] = (p0, c0, s0)"
    by (metis prod_cases3)
  from Suc.prems(1) have "n \<le> length runes" by simp
  from Suc.IH[OF this st] have i0: "concat p0 = take s0 runes" "s0 \<le> n" by simp_all
  from Suc.prems(2) st have "wrapStep W runes (p0, c0, s0) n = (parts, cw, start)"
    by simp
  from wrapStep_inv[OF this i0] Suc.prems(1) show ?case by simp
qed

text \<open>
  C3.  For every line and every content width, concatenating the segments returned by
  wrapLine in order gives the line back, and the empty line yields exactly one segment,
  the empty string.
\<close>

theorem wrapLine_concat:
  "concat (wrapLine W line) = line \<and> wrapLine W [] = [[]]"
proof (cases "length line = 0")
  case True
  then show ?thesis by (simp add: wrapLine_def)
next
  case False
  obtain parts cw start where
    st: "foldl (wrapStep W line) ([], 0, 0) [0..<length line] = (parts, cw, start)"
    by (metis prod_cases3)
  from wrapLoop_inv[OF order_refl st] have "concat parts = take start line" by simp
  with st False show ?thesis by (simp add: wrapLine_def)
qed

section \<open>Basic facts: errors, clamps, ensureVisible\<close>

lemma bindE_Inr_iff: "bindE m f = Inr y \<longleftrightarrow> (\<exists>x. m = Inr x \<and> f x = Inr y)"
  by (cases m) (simp_all add: bindE_def)

lemma bindE_InrE:
  assumes "bindE m f = Inr y"
  obtains x where "m = Inr x" and "f x = Inr y"
  using assms by (cases m) (simp_all add: bindE_def)

lemma index_Inr_iff: "index xs i = Inr x \<longleftrightarrow> 0 \<le> i \<and> i < len xs \<and> x = xs ! nat i"
  by (auto simp: index_def)

lemma slice_Inr_iff:
  "slice xs lo hi = Inr ys \<longleftrightarrow>
     0 \<le> lo \<and> lo \<le> hi \<and> hi \<le> len xs \<and> ys = take (nat hi - nat lo) (drop (nat lo) xs)"
  by (auto simp: slice_def)

lemma sliceTo_Inr_iff:
  "sliceTo xs hi = Inr ys \<longleftrightarrow> 0 \<le> hi \<and> hi \<le> len xs \<and> ys = take (nat hi) xs"
  by (auto simp: sliceTo_def slice_Inr_iff)

lemma sliceFrom_Inr_iff:
  "sliceFrom xs lo = Inr ys \<longleftrightarrow> 0 \<le> lo \<and> lo \<le> len xs \<and> ys = drop (nat lo) xs"
  by (auto simp: sliceFrom_def slice_Inr_iff len_def)

lemma splitNL_nonempty: "splitNL t \<noteq> []"
  by (induction t) auto

lemma splitNL_single: "10 \<notin> set t \<Longrightarrow> splitNL t = [t]"
  by (induction t) auto

lemma bufferInv_offsetY [simp]: "bufferInv (e\<lparr>offsetY := y\<rparr>) = bufferInv e"
  by (simp add: bufferInv_def)

lemma bufferInv_lastSearch [simp]: "bufferInv (e\<lparr>lastSearch := y\<rparr>) = bufferInv e"
  by (simp add: bufferInv_def)

lemma bufferInv_endSelection [simp]: "bufferInv (endSelection e) = bufferInv e"
  by (simp add: bufferInv_def endSelection_def)

lemma bufferInv_pushUndo [simp]: "bufferInv (pushUndo e) = bufferInv e"
  by (simp add: bufferInv_def pushUndo_def)

lemma cursorClamp_inv: "bufferInv (cursorClamp e)"
  unfolding bufferInv_def cursorClamp_def len_def Let_def
  by (auto split: if_splits)

lemma cursorClamp_id: "bufferInv e \<Longrightarrow> cursorClamp e = e"
  unfolding bufferInv_def cursorClamp_def len_def Let_def
  by (auto split: if_splits)

lemma visibleClamp_inv: "bufferInv (visibleClamp e)"
  unfolding bufferInv_def visibleClamp_def len_def Let_def
  by (auto split: if_splits)

lemma visibleClamp_id: "bufferInv e \<Longrightarrow> visibleClamp e = e"
  unfolding bufferInv_def visibleClamp_def len_def Let_def
  by (auto split: if_splits)

lemma cursorDisplayPosition_fst: "fst (cursorDisplayPosition rw e) = cursorClamp e"
proof -
  have "cx (cursorClamp e) \<le> len (lines (cursorClamp e) ! nat (cy (cursorClamp e)))"
    using cursorClamp_inv[of e] by (simp add: bufferInv_def)
  then show ?thesis
    by (simp add: cursorDisplayPosition_def Let_def split: option.splits prod.splits)
qed

lemma ensureVisible_eq:
  "\<exists>y. ensureVisible rw e = (cursorClamp (visibleClamp e))\<lparr>offsetY := y\<rparr>"
proof -
  obtain e1 d s c where p: "cursorDisplayPosition rw (visibleClamp e) = (e1, d, s, c)"
    by (metis prod_cases4)
  then have e1: "e1 = cursorClamp (visibleClamp e)"
    using cursorDisplayPosition_fst[of rw "visibleClamp e"] by simp
  have triv: "e1 = e1\<lparr>offsetY := offsetY e1\<rparr>" by simp
  show ?thesis
    unfolding ensureVisible_def p
    apply (simp add: Let_def e1[symmetric])
    using triv by metis
qed

lemma ensureVisible_inv: "bufferInv (ensureVisible rw e)"
proof -
  obtain y where "ensureVisible rw e = (cursorClamp (visibleClamp e))\<lparr>offsetY := y\<rparr>"
    using ensureVisible_eq by blast
  then show ?thesis using cursorClamp_inv[of "visibleClamp e"] by simp
qed

lemma ensureVisible_id:
  "bufferInv e \<Longrightarrow> \<exists>y. ensureVisible rw e = e\<lparr>offsetY := y\<rparr>"
  using ensureVisible_eq[of rw e] by (simp add: visibleClamp_id cursorClamp_id)

lemma ensureVisible_cx: "bufferInv e \<Longrightarrow> cx (ensureVisible rw e) = cx e"
  using ensureVisible_id[of e rw] by auto

lemma ensureVisible_cy: "bufferInv e \<Longrightarrow> cy (ensureVisible rw e) = cy e"
  using ensureVisible_id[of e rw] by auto

lemma ensureVisible_lines: "bufferInv e \<Longrightarrow> lines (ensureVisible rw e) = lines e"
  using ensureVisible_id[of e rw] by auto

lemma len_ge0 [simp]: "0 \<le> len xs"
  by (simp add: len_def)

section \<open>Typing over a line selection that covers the document\<close>

lemma ensureVisible_keeps:
  assumes "bufferInv e"
  shows "lines (ensureVisible rw e) = lines e \<and> cx (ensureVisible rw e) = cx e
    \<and> cy (ensureVisible rw e) = cy e \<and> selecting (ensureVisible rw e) = selecting e
    \<and> lineSelecting (ensureVisible rw e) = lineSelecting e
    \<and> selectStartY (ensureVisible rw e) = selectStartY e"
  using ensureVisible_id[OF assms, of rw] by auto

lemma key_a:
  "\<exists>e1. handleRune rw False 97 (NewEditor [] None) = Inr e1
        \<and> lines e1 = [[97]] \<and> cx e1 = 1 \<and> cy e1 = 0 \<and> \<not> selecting e1"
proof -
  define A where "A = (pushUndo (NewEditor [] None))
                        \<lparr>lines := [[97]], cx := 1, redoStack := [], dirty := True\<rparr>"
  have i: "insertRune 97 (NewEditor [] None) = Inr A"
    by (simp add: A_def insertRune_def NewEditor_def pushUndo_def snapshot_def bindE_def
        index_def sliceTo_def sliceFrom_def slice_def len_def Let_def)
  have b: "bufferInv A"
    by (simp add: A_def bufferInv_def NewEditor_def pushUndo_def len_def)
  have t: "lines (ensureVisible rw A) = [[97]] \<and> cx (ensureVisible rw A) = 1
           \<and> cy (ensureVisible rw A) = 0 \<and> \<not> selecting (ensureVisible rw A)"
    using ensureVisible_keeps[OF b, of rw]
    by (simp add: A_def NewEditor_def pushUndo_def)
  have "handleRune rw False 97 (NewEditor [] None) = Inr (ensureVisible rw A)"
    using i by (simp add: handleRune_def NewEditor_def bindE_def getClosingBracket_def)
  with t show ?thesis by blast
qed

lemma key_shift_left:
  assumes "lines e1 = [[97]]" and "cx e1 = 1" and "cy e1 = 0" and "\<not> selecting e1"
  shows "\<exists>e2. handleLeft rw True e1 = Inr e2
           \<and> lines e2 = [[97]] \<and> cx e2 = 0 \<and> cy e2 = 0
           \<and> selecting e2 \<and> lineSelecting e2 \<and> selectStartY e2 = 0"
proof -
  define B where "B = (startLineSelection e1)\<lparr>cx := cx (startLineSelection e1) - 1\<rparr>"
  have b: "bufferInv B" using assms
    by (simp add: B_def bufferInv_def startLineSelection_def len_def)
  have s: "lines (ensureVisible rw B) = [[97]] \<and> cx (ensureVisible rw B) = 0
           \<and> cy (ensureVisible rw B) = 0 \<and> selecting (ensureVisible rw B)
           \<and> lineSelecting (ensureVisible rw B) \<and> selectStartY (ensureVisible rw B) = 0"
    using ensureVisible_keeps[OF b, of rw] assms
    by (simp add: B_def startLineSelection_def)
  have "handleLeft rw True e1 = Inr (ensureVisible rw B)"
    using assms by (simp add: handleLeft_def B_def bindE_def Let_def)
  with s show ?thesis by blast
qed

lemma deleteSelection_whole_document:
  assumes "lines e2 = [[97]]" and "cy e2 = 0" and "selecting e2" and "lineSelecting e2"
    and "selectStartY e2 = 0"
  shows "\<exists>e3. deleteSelection e2 = Inr e3 \<and> lines e3 = [] \<and> cy e3 = 0"
  using assms
  by (simp add: deleteSelection_def pushUndo_def getSelectionRange_def
      deleteSelectionBody_def deleteSelectionFinish_def endSelection_def bindE_def
      index_def sliceTo_def sliceFrom_def slice_def len_def Let_def)

lemma key_b:
  assumes "lines e2 = [[97]]" and "cy e2 = 0" and "selecting e2" and "lineSelecting e2"
    and "selectStartY e2 = 0"
  shows "handleRune rw False 98 e2 = Inl IndexOutOfRange"
proof -
  obtain e3 where d: "deleteSelection e2 = Inr e3" and l: "lines e3 = []" and c: "cy e3 = 0"
    using deleteSelection_whole_document[OF assms] by blast
  have "insertRune 98 e3 = Inl IndexOutOfRange"
    using l c by (simp add: insertRune_def pushUndo_def bindE_def index_def len_def Let_def)
  then show ?thesis using d assms
    by (simp add: handleRune_def bindE_def getClosingBracket_def)
qed

lemma cutLine_whole_document:
  assumes "lines e2 = [[97]]" and "cy e2 = 0"
  shows "lines (cutLine rw e2) = [[]]"
proof -
  define C where "C = (pushUndo e2)
                        \<lparr>clipboard := [97], lines := [[]], cy := 0, cx := 0, dirty := True\<rparr>"
  have b: "bufferInv C" by (simp add: C_def bufferInv_def len_def)
  have "cutLine rw e2 = ensureVisible rw C"
    using assms by (simp add: cutLine_def C_def pushUndo_def len_def Let_def)
  then show ?thesis using ensureVisible_keeps[OF b, of rw] by (simp add: C_def)
qed

text \<open>
  C1.  The buffer invariant is claimed for every state reached through the editing
  operations, delete-selection among them.  It is lost on the empty document after the
  keys \<open>a\<close>, Shift+Left and \<open>b\<close>.  The first key leaves the single line \<open>a\<close> with the
  cursor behind it; Shift+Left starts a line selection and moves the cursor to column 0;
  the state \<open>e2\<close> so reached satisfies the invariant.  The third key calls
  deleteSelection, which in line mode removes the lines of the selection and leaves
  \<open>e.lines\<close> with no line at all, and then insertRune, which indexes
  \<open>e.lines[e.cy]\<close> in the empty slice and panics.  cutLine, which removes a line too,
  puts one empty line back when none is left.
\<close>

theorem type_over_line_selection_panics:
  "\<forall>rw. \<exists>e1 e2 e3.
      handleRune rw False 97 (NewEditor [] None) = Inr e1
      \<and> handleLeft rw True e1 = Inr e2
      \<and> bufferInv e2
      \<and> deleteSelection e2 = Inr e3 \<and> lines e3 = [] \<and> \<not> bufferInv e3
      \<and> handleRune rw False 98 e2 = Inl IndexOutOfRange
      \<and> lines (cutLine rw e2) = [[]]"
proof
  fix rw
  obtain e1 where 1: "handleRune rw False 97 (NewEditor [] None) = Inr e1"
    and t: "lines e1 = [[97]]" "cx e1 = 1" "cy e1 = 0" "\<not> selecting e1"
    using key_a by blast
  obtain e2 where 2: "handleLeft rw True e1 = Inr e2"
    and s: "lines e2 = [[97]]" "cy e2 = 0" "selecting e2" "lineSelecting e2"
           "selectStartY e2 = 0"
    and c: "cx e2 = 0"
    using key_shift_left[OF t] by blast
  obtain e3 where 3: "deleteSelection e2 = Inr e3" and l: "lines e3 = []"
    using deleteSelection_whole_document[OF s] by blast
  have b: "bufferInv e2" using s c by (simp add: bufferInv_def len_def)
  have nb: "\<not> bufferInv e3" using l by (simp add: bufferInv_def)
  from 1 2 3 l b nb key_b[OF s] cutLine_whole_document[OF s(1) s(2)]
  show "\<exists>e1 e2 e3.
      handleRune rw False 97 (NewEditor [] None) = Inr e1
      \<and> handleLeft rw True e1 = Inr e2
      \<and> bufferInv e2
      \<and> deleteSelection e2 = Inr e3 \<and> lines e3 = [] \<and> \<not> bufferInv e3
      \<and> handleRune rw False 98 e2 = Inl IndexOutOfRange
      \<and> lines (cutLine rw e2) = [[]]"
    by blast
qed

section \<open>wrapLine measures bytes, not cells\<close>

text \<open>
  C4.  wrapLine is claimed to measure a tab from segment-relative column 0 and every
  other rune by its display width.  The code does neither.  A tab that opens a new
  segment keeps the width computed in the old segment: with content width 6 the line
  \<open>abcde\txyz\<close> wraps into \<open>abcde\<close> and \<open>\txyz\<close>, whose cells, counted as
  cursorDisplayPosition counts them with one cell per letter, are 7.  A rune that is not
  white space counts with the length of its UTF-8 encoding: with content width 3 the
  line of three \<open>U+00E9\<close> (two bytes, one cell each) wraps into three segments.
\<close>

theorem wrapLine_width_examples:
  "wrapLine 6 [97, 98, 99, 100, 101, 9, 120, 121, 122]
     = [[97, 98, 99, 100, 101], [9, 120, 121, 122]]
   \<and> cellOffset (\<lambda>r. 1) [9, 120, 121, 122] = 7
   \<and> wrapLine 3 [233, 233, 233] = [[233], [233], [233]]
   \<and> cellOffset (\<lambda>r. 1) [233, 233, 233] = 3"
proof -
  have 1: "wrapLine 6 [97, 98, 99, 100, 101, 9, 120, 121, 122]
             = [[97, 98, 99, 100, 101], [9, 120, 121, 122]]"
    by code_simp
  have 2: "cellOffset (\<lambda>r. 1) [9, 120, 121, 122] = 7"
    by (simp add: cellOffset_def signed_modulo_int_def signed_divide_int_def)
  have 3: "wrapLine 3 [233, 233, 233] = [[233], [233], [233]]"
    by code_simp
  have 4: "cellOffset (\<lambda>r. 1) [233, 233, 233] = 3"
    by (simp add: cellOffset_def)
  from 1 2 3 4 show ?thesis by simp
qed

section \<open>Loading and saving: line endings\<close>

lemma joinNL_Cons: "ls \<noteq> [] \<Longrightarrow> joinNL (l # ls) = l @ [10] @ joinNL ls"
  by (cases ls) simp_all

lemma joinNL_splitNL: "joinNL (splitNL t) = t"
proof (induction t)
  case Nil
  then show ?case by simp
next
  case (Cons c t)
  obtain p ps where s: "splitNL t = p # ps"
    using splitNL_nonempty[of t] by (cases "splitNL t") auto
  show ?case
  proof (cases "c = 10")
    case True
    then show ?thesis using Cons s by (simp add: joinNL_Cons)
  next
    case False
    then show ?thesis using Cons s by (cases ps) simp_all
  qed
qed

lemma splitNL_noLF: "l \<in> set (splitNL t) \<Longrightarrow> 10 \<notin> set l"
proof (induction t arbitrary: l)
  case Nil
  then show ?case by simp
next
  case (Cons c t)
  obtain p ps where s: "splitNL t = p # ps"
    using splitNL_nonempty[of t] by (cases "splitNL t") auto
  have ih: "\<And>x. x \<in> set (p # ps) \<Longrightarrow> 10 \<notin> set x" using Cons.IH s by simp
  from Cons.prems s show ?case using ih by (auto split: if_splits)
qed

lemma NewEditor_lines:
  "path \<noteq> [] \<Longrightarrow> lines (NewEditor path (Some content)) = fileLines content"
  by (simp add: NewEditor_def Let_def)

lemma NewEditor_clean: "(NewEditor path content)\<lparr>dirty := False\<rparr> = NewEditor path content"
  by (simp add: NewEditor_def Let_def)

lemma NewEditor_filename: "filename (NewEditor path content) = path"
  by (simp add: NewEditor_def Let_def)

lemma openFile_lines: "lines (openFile rw path (Some content) e) = fileLines content"
proof -
  have "bufferInv (e\<lparr>filename := path, lines := fileLines content, cx := 0, cy := 0,
                  offsetX := 0, offsetY := 0, dirty := False,
                  undoStack := [], redoStack := []\<rparr>)"
    by (simp add: bufferInv_def fileLines_def splitNL_nonempty len_def)
  from ensureVisible_lines[OF this] show ?thesis by (simp add: openFile_def)
qed

lemma ReplaceAll_crlfToLf: "ReplaceAll s [13, 10] [10] = crlfToLf s"
proof (induction s rule: crlfToLf.induct)
  case 1
  show ?case by (subst ReplaceAll.simps) simp
next
  case (2 c)
  show ?case
    by (subst ReplaceAll.simps, simp, subst ReplaceAll.simps, simp)
next
  case (3 c d s)
  show ?case
  proof (cases "c = 13 \<and> d = 10")
    case True
    then show ?thesis using 3 by (subst ReplaceAll.simps) simp
  next
    case False
    then show ?thesis using 3 by (subst ReplaceAll.simps) auto
  qed
qed

text \<open>
  C5, as the code has it, for the two loaders the claim cites.  NewEditor (startup with
  a file path) and openFile (the Open prompt) turn every \<open>\r\n\<close> of the content into
  \<open>\n\<close> and leave every other rune, a \<open>\r\<close> that no \<open>\n\<close> follows included, before they
  split the content at \<open>\n\<close>: the lines are the split of \<open>crlfToLf content\<close>, no line
  holds a \<open>\n\<close>, and the lines joined with \<open>\n\<close> are \<open>crlfToLf content\<close> again.  A
  successful persist writes the lines joined with \<open>\n\<close> and clears the dirty flag; so
  saving a file right after NewEditor loaded it writes \<open>crlfToLf content\<close>.
\<close>

theorem load_normalizes_crlf:
  "(path \<noteq> [] \<longrightarrow>
      lines (NewEditor path (Some content)) = splitNL (crlfToLf content)
      \<and> persist True (NewEditor path (Some content), d)
          = (True, NewEditor path (Some content), d(path \<mapsto> crlfToLf content)))
   \<and> lines (openFile rw path (Some content) e) = splitNL (crlfToLf content)
   \<and> (\<forall>l \<in> set (splitNL (crlfToLf content)). 10 \<notin> set l)
   \<and> joinNL (splitNL (crlfToLf content)) = crlfToLf content
   \<and> persist True (e, d) = (True, e\<lparr>dirty := False\<rparr>, d(filename e \<mapsto> joinNL (lines e)))"
proof -
  have 1: "path \<noteq> [] \<longrightarrow> lines (NewEditor path (Some content)) = splitNL (crlfToLf content)"
    using NewEditor_lines[of path content] by (simp add: fileLines_def ReplaceAll_crlfToLf)
  have 2: "path \<noteq> [] \<longrightarrow> persist True (NewEditor path (Some content), d)
          = (True, NewEditor path (Some content), d(path \<mapsto> crlfToLf content))"
    using 1 by (simp add: persist_def joinNL_splitNL) (simp add: NewEditor_def)
  have 3: "lines (openFile rw path (Some content) e) = splitNL (crlfToLf content)"
    using openFile_lines[of rw path content e] by (simp add: fileLines_def ReplaceAll_crlfToLf)
  have 4: "\<forall>l \<in> set (splitNL (crlfToLf content)). 10 \<notin> set l"
    using splitNL_noLF by blast
  have 5: "persist True (e, d) = (True, e\<lparr>dirty := False\<rparr>, d(filename e \<mapsto> joinNL (lines e)))"
    by (simp add: persist_def)
  from 1 2 3 4 5 show ?thesis by (simp add: joinNL_splitNL)
qed

theorem load_normalizes_crlf_witness:
  "lines (NewEditor [102] (Some [97, 13, 10, 13, 98, 13, 13, 10])) = [[97], [13, 98, 13], []]
   \<and> persist True (NewEditor [102] (Some [97, 13, 10, 13, 98, 13, 13, 10]), Map.empty)
       = (True, NewEditor [102] (Some [97, 13, 10, 13, 98, 13, 13, 10]),
          [[102] \<mapsto> [97, 10, 13, 98, 13, 10]])"
  using load_normalizes_crlf [of "[102]" "[97, 13, 10, 13, 98, 13, 13, 10]" Map.empty]
  by (simp add: NewEditor_clean NewEditor_filename)

lemma ReplaceAll_cr_example1: "ReplaceAll [97, 13, 98] [13, 10] [10] = [97, 13, 98]"
  by code_simp

lemma ReplaceAll_cr_example2: "ReplaceAll [97, 13, 98] [13] [10] = [97, 10, 98]"
  by code_simp

text \<open>
  C5 as stated fails on a lone \<open>\r\<close>: the file \<open>a\rb\<close> is loaded as the single line
  \<open>a\rb\<close>, where the normalisation of the claim gives the two lines \<open>a\<close> and \<open>b\<close>.
\<close>

theorem load_lone_cr_counterexample:
  "lines (NewEditor [102] (Some [97, 13, 98])) = [[97, 13, 98]]
   \<and> splitNL (normalizeSpec [97, 13, 98]) = [[97], [98]]"
  by (simp add: NewEditor_lines fileLines_def normalizeSpec_def
      ReplaceAll_cr_example1 ReplaceAll_cr_example2)

section \<open>The selection range\<close>

text \<open>
  C9.  With a selection active, and the anchor line and the cursor line not negative (as
  positions are), getSelectionRange returns a range whose start is not after its end in
  document order, whichever of anchor and cursor comes first; in line mode the start
  column is 0 and the end column is the rune length of the end line (0 when the end
  line lies beyond the document).
\<close>

theorem getSelectionRange_normalized:
  assumes "selecting e" and "0 \<le> selectStartY e" and "0 \<le> cy e"
  shows "\<exists>startLine startCol endLine endCol.
           getSelectionRange e = Inr (startLine, startCol, endLine, endCol)
           \<and> (startLine < endLine \<or> (startLine = endLine \<and> startCol \<le> endCol))
           \<and> (lineSelecting e \<longrightarrow>
                 startCol = 0
                 \<and> endCol = (if endLine < len (lines e) then len (lines e ! nat endLine) else 0))"
  using assms
  by (auto simp: getSelectionRange_def Let_def bindE_def index_def)

lemma fileLines_example: "fileLines [97, 98, 10, 99] = [[97, 98], [99]]"
  by code_simp

theorem getSelectionRange_normalized_witness:
  "getSelectionRange ((NewEditor [102] (Some [97, 98, 10, 99]))
       \<lparr>selecting := True, lineSelecting := True,
        selectStartX := 1, selectStartY := 1, cx := 2, cy := 0\<rparr>) = Inr (0, 0, 1, 1)"
  using getSelectionRange_normalized [of "(NewEditor [102] (Some [97, 98, 10, 99]))
       \<lparr>selecting := True, lineSelecting := True,
        selectStartX := 1, selectStartY := 1, cx := 2, cy := 0\<rparr>"]
  by (simp add: getSelectionRange_def NewEditor_lines fileLines_example bindE_def index_def len_def)

text \<open>
  C10, as the code has it.  Without a selection getSelectionRange returns (0,0,0,0), and
  whenever the range is (0,0,0,0) getSelectedText is empty; so an active selection with
  that range (select-all on the empty one-line document) gives the range and the text
  of no selection.  The converse is not claimed.
\<close>

theorem getSelectedText_sentinel:
  "(\<not> selecting e \<longrightarrow> getSelectionRange e = Inr (0, 0, 0, 0))
   \<and> (getSelectionRange e = Inr (0, 0, 0, 0) \<longrightarrow> getSelectedText e = Inr [])"
  by (simp add: getSelectionRange_def getSelectedText_def bindE_def)

theorem getSelectedText_sentinel_witness:
  "selecting ((NewEditor [] None)\<lparr>selecting := True\<rparr>)
   \<and> getSelectionRange ((NewEditor [] None)\<lparr>selecting := True\<rparr>) = Inr (0, 0, 0, 0)
   \<and> getSelectedText ((NewEditor [] None)\<lparr>selecting := True\<rparr>) = Inr []"
proof -
  have r: "getSelectionRange ((NewEditor [] None)\<lparr>selecting := True\<rparr>) = Inr (0, 0, 0, 0)"
    by (simp add: getSelectionRange_def NewEditor_def Let_def)
  with getSelectedText_sentinel [of "(NewEditor [] None)\<lparr>selecting := True\<rparr>"]
  show ?thesis by simp
qed

text \<open>
  C10 as stated (``exactly when'') fails: on the document \<open>a\<close>, \<open>b\<close>, after Down and
  Shift-Home the selection is active with anchor and cursor at (1,0); the range is
  (1,0,1,0), not the sentinel, and the selected text is empty all the same.
\<close>

theorem getSelectedText_empty_counterexample:
  "getSelectedText ((NewEditor [102] (Some [97, 10, 98]))
       \<lparr>cy := 1, selecting := True, selectStartX := 0, selectStartY := 1\<rparr>) = Inr []
   \<and> getSelectionRange ((NewEditor [102] (Some [97, 10, 98]))
       \<lparr>cy := 1, selecting := True, selectStartX := 0, selectStartY := 1\<rparr>) = Inr (1, 0, 1, 0)"
  by (simp add: getSelectedText_def getSelectionRange_def NewEditor_def Let_def
      fileLines_def bindE_def index_def len_def)

section \<open>insertTextAtCursor\<close>

lemma insertTextPrepare_inv: "bufferInv (insertTextPrepare e)"
proof -
  define e2 where "e2 = (if cy e < 0 then e\<lparr>cy := 0\<rparr> else e)"
  define e3 where "e3 = e2\<lparr>lines := lines e2 @ replicate (nat (cy e2 + 1 - len (lines e2))) []\<rparr>"
  define e4 where "e4 = (if cx e3 < 0 then e3\<lparr>cx := 0\<rparr> else e3)"
  have eq: "insertTextPrepare e =
      (if cx e4 > len (lines e4 ! nat (cy e4)) then e4\<lparr>cx := len (lines e4 ! nat (cy e4))\<rparr> else e4)"
    unfolding insertTextPrepare_def Let_def e4_def e3_def e2_def ..
  have c2: "0 \<le> cy e2" by (simp add: e2_def)
  have c3: "0 \<le> cy e3" "cy e3 < len (lines e3)" using c2 by (auto simp: e3_def len_def)
  have c4: "0 \<le> cy e4" "cy e4 < len (lines e4)" "0 \<le> cx e4" using c3 by (auto simp: e4_def)
  then show ?thesis unfolding eq by (auto simp: bufferInv_def len_def)
qed

lemma insertTextPrepare_id: "bufferInv e \<Longrightarrow> insertTextPrepare e = e"
  by (simp add: insertTextPrepare_def bufferInv_def len_def)

lemma insertMiddle_Cons:
  "insertMiddle e (m # ms) =
     insertMiddle (e\<lparr>lines := insertAt (lines e) (cy e + 1) m, cy := cy e + 1\<rparr>) ms"
  by (simp add: insertMiddle_def)

lemma insertMiddle_spec:
  "0 \<le> cy e \<Longrightarrow> cy e < len (lines e) \<Longrightarrow>
   lines (insertMiddle e ms)
     = take (nat (cy e) + 1) (lines e) @ ms @ drop (nat (cy e) + 1) (lines e)
   \<and> cy (insertMiddle e ms) = cy e + len ms \<and> cx (insertMiddle e ms) = cx e"
proof (induction ms arbitrary: e)
  case Nil
  then show ?case by (simp add: insertMiddle_def len_def)
next
  case (Cons m ms)
  let ?e = "e\<lparr>lines := insertAt (lines e) (cy e + 1) m, cy := cy e + 1\<rparr>"
  have n: "nat (cy e + 1) = nat (cy e) + 1" using Cons.prems by simp
  have l: "nat (cy e) < length (lines e)" using Cons.prems by (simp add: len_def)
  have a: "0 \<le> cy ?e" "cy ?e < len (lines ?e)"
    using Cons.prems by (auto simp: insertAt_def len_def)
  have t: "take (nat (cy ?e) + 1) (lines ?e) = take (nat (cy e) + 1) (lines e) @ [m]"
    using l by (simp add: insertAt_def n)
  have d: "drop (nat (cy ?e) + 1) (lines ?e) = drop (nat (cy e) + 1) (lines e)"
    using l by (simp add: insertAt_def n)
  from Cons.IH[OF a] t d show ?case
    by (simp add: insertMiddle_Cons len_def)
qed

lemma insertTextEdit_multi:
  assumes "bufferInv e" and "ps \<noteq> []"
  shows "lines (insertTextEdit (p # ps) e)
           = take (nat (cy e)) (lines e)
             @ [take (nat (cx e)) (lines e ! nat (cy e)) @ p]
             @ butlast ps
             @ [last ps @ drop (nat (cx e)) (lines e ! nat (cy e))]
             @ drop (nat (cy e) + 1) (lines e)"
    and "cy (insertTextEdit (p # ps) e) = cy e + len ps"
    and "cx (insertTextEdit (p # ps) e) = len (last ps)"
proof -
  let ?l = "lines e ! nat (cy e)"
  let ?e6 = "e\<lparr>lines := (lines e)[nat (cy e) := take (nat (cx e)) ?l @ p]\<rparr>"
  let ?e7 = "insertMiddle ?e6 (butlast ps)"
  have r: "0 \<le> cy e" "cy e < len (lines e)" "nat (cy e) < length (lines e)"
    using assms(1) by (auto simp: bufferInv_def len_def)
  have eq: "insertTextEdit (p # ps) e
      = ?e7\<lparr>lines := insertAt (lines ?e7) (cy ?e7 + 1) (last ps @ drop (nat (cx e)) ?l),
            cy := cy e + (len (p # ps) - 1), cx := len (last ps), dirty := True\<rparr>"
    using assms(2) by (simp add: insertTextEdit_def Let_def)
  have a: "0 \<le> cy ?e6" "cy ?e6 < len (lines ?e6)" using r by (auto simp: len_def)
  note m = insertMiddle_spec[OF a, of "butlast ps"]
  have l7: "lines ?e7 = take (nat (cy e)) (lines e) @ [take (nat (cx e)) ?l @ p]
               @ butlast ps @ drop (nat (cy e) + 1) (lines e)"
    using m r(3) by (simp add: take_Suc_conv_app_nth upd_conv_take_nth_drop)
  have c7: "cy ?e7 = cy e + len (butlast ps)" using m by simp
  have n: "nat (cy ?e7 + 1) = nat (cy e) + 1 + length (butlast ps)"
    using r c7 by (simp add: len_def)
  have tk: "length (take (nat (cy e)) (lines e)) = nat (cy e)" using r(3) by simp
  show "lines (insertTextEdit (p # ps) e)
           = take (nat (cy e)) (lines e)
             @ [take (nat (cx e)) ?l @ p]
             @ butlast ps
             @ [last ps @ drop (nat (cx e)) ?l]
             @ drop (nat (cy e) + 1) (lines e)"
    unfolding eq using tk by (simp add: insertAt_def n l7)
  show "cy (insertTextEdit (p # ps) e) = cy e + len ps"
    unfolding eq by (simp add: len_def)
  show "cx (insertTextEdit (p # ps) e) = len (last ps)"
    unfolding eq by simp
qed

lemma nth_mid: "(A @ [x] @ B @ [y] @ C) ! (length A + Suc (length B)) = y"
  by (simp add: nth_append)

lemma insertTextEdit_multi_inv:
  assumes "bufferInv e" and "ps \<noteq> []"
  shows "bufferInv (insertTextEdit (p # ps) e)"
proof -
  let ?l = "lines e ! nat (cy e)"
  let ?A = "take (nat (cy e)) (lines e)"
  let ?C = "drop (nat (cy e) + 1) (lines e)"
  let ?y = "last ps @ drop (nat (cx e)) ?l"
  note m = insertTextEdit_multi[OF assms, of p]
  have r: "0 \<le> cy e" "nat (cy e) < length (lines e)"
    using assms(1) by (auto simp: bufferInv_def len_def)
  have lA: "length ?A = nat (cy e)" using r by simp
  have lB: "Suc (length (butlast ps)) = length ps" using assms(2) by simp
  have idx: "nat (cy e + len ps) = length ?A + Suc (length (butlast ps))"
    using r lA lB by (simp add: len_def)
  have nth: "lines (insertTextEdit (p # ps) e) ! nat (cy e + len ps) = ?y"
    unfolding m(1) idx by (rule nth_mid)
  have ln: "length (lines (insertTextEdit (p # ps) e)) = length (lines e) + length ps"
    unfolding m(1) using r lB by simp
  show ?thesis
    unfolding bufferInv_def m(2) m(3) nth
    using r ln assms(2) by (auto simp: len_def)
qed

text \<open>
  C7.  On a buffer that satisfies the invariant, inserting a text with at least one
  \<open>\n\<close> (parts \<open>p # ps\<close>) appends the first part to the left of the cursor line,
  prepends the last part to the right of it, puts the middle parts between as lines of
  their own, and leaves the cursor at the end of the last part.  In particular \<open>x\ny\nz\<close>
  at column 2 of the single line \<open>ab\<close> gives \<open>abx\<close>, \<open>y\<close>, \<open>z\<close> with the cursor at
  (2,1), after \<open>z\<close>.
\<close>

theorem insertTextAtCursor_multiline:
  "(bufferInv e \<and> splitNL text = p # ps \<and> ps \<noteq> [] \<longrightarrow>
      lines (insertTextAtCursor rw text e)
        = take (nat (cy e)) (lines e)
          @ [take (nat (cx e)) (lines e ! nat (cy e)) @ p]
          @ butlast ps
          @ [last ps @ drop (nat (cx e)) (lines e ! nat (cy e))]
          @ drop (nat (cy e) + 1) (lines e)
      \<and> cy (insertTextAtCursor rw text e) = cy e + len ps
      \<and> cx (insertTextAtCursor rw text e) = len (last ps))
   \<and> (lines e = [[97, 98]] \<and> cy e = 0 \<and> cx e = 2 \<longrightarrow>
      lines (insertTextAtCursor rw [120, 10, 121, 10, 122] e) = [[97, 98, 120], [121], [122]]
      \<and> cy (insertTextAtCursor rw [120, 10, 121, 10, 122] e) = 2
      \<and> cx (insertTextAtCursor rw [120, 10, 121, 10, 122] e) = 1)"
proof -
  have gen: "lines (insertTextAtCursor rw t e)
        = take (nat (cy e)) (lines e)
          @ [take (nat (cx e)) (lines e ! nat (cy e)) @ q]
          @ butlast qs
          @ [last qs @ drop (nat (cx e)) (lines e ! nat (cy e))]
          @ drop (nat (cy e) + 1) (lines e)
      \<and> cy (insertTextAtCursor rw t e) = cy e + len qs
      \<and> cx (insertTextAtCursor rw t e) = len (last qs)"
    if inv: "bufferInv e" and sp: "splitNL t = q # qs" and ne: "qs \<noteq> []" for t q qs
  proof -
    let ?e1 = "pushUndo e"
    have i1: "bufferInv ?e1" using inv by simp
    have eq: "insertTextAtCursor rw t e = ensureVisible rw (insertTextEdit (q # qs) ?e1)"
      by (simp add: insertTextAtCursor_def Let_def sp insertTextPrepare_id[OF i1])
    have i2: "bufferInv (insertTextEdit (q # qs) ?e1)"
      by (rule insertTextEdit_multi_inv[OF i1 ne])
    have f: "lines ?e1 = lines e" "cx ?e1 = cx e" "cy ?e1 = cy e"
      by (simp_all add: pushUndo_def)
    show ?thesis
      unfolding eq ensureVisible_lines[OF i2] ensureVisible_cx[OF i2] ensureVisible_cy[OF i2]
      using insertTextEdit_multi[OF i1 ne, of q] by (simp add: f)
  qed
  have sc: "lines (insertTextAtCursor rw [120, 10, 121, 10, 122] e) = [[97, 98, 120], [121], [122]]
      \<and> cy (insertTextAtCursor rw [120, 10, 121, 10, 122] e) = 2
      \<and> cx (insertTextAtCursor rw [120, 10, 121, 10, 122] e) = 1"
    if st: "lines e = [[97, 98]]" "cy e = 0" "cx e = 2"
  proof -
    have inv: "bufferInv e" using st by (simp add: bufferInv_def len_def)
    have sp: "splitNL [120, 10, 121, 10, 122] = [120] # [[121], [122]]" by simp
    from gen[OF inv sp] st show ?thesis by (simp add: len_def)
  qed
  from gen sc show ?thesis by blast
qed

theorem insertTextAtCursor_multiline_witness:
  "lines (insertTextAtCursor (\<lambda>r. 1) [120, 10, 121, 10, 122]
            ((NewEditor [] None)\<lparr>lines := [[97, 98]], cx := 2\<rparr>)) = [[97, 98, 120], [121], [122]]
   \<and> cy (insertTextAtCursor (\<lambda>r. 1) [120, 10, 121, 10, 122]
            ((NewEditor [] None)\<lparr>lines := [[97, 98]], cx := 2\<rparr>)) = 2
   \<and> cx (insertTextAtCursor (\<lambda>r. 1) [120, 10, 121, 10, 122]
            ((NewEditor [] None)\<lparr>lines := [[97, 98]], cx := 2\<rparr>)) = 1"
proof -
  have c: "cy ((NewEditor [] None)\<lparr>lines := [[97, 98]], cx := 2\<rparr>) = 0"
    by (simp add: NewEditor_def Let_def)
  show ?thesis
    using insertTextAtCursor_multiline
      [of "(NewEditor [] None)\<lparr>lines := [[97, 98]], cx := 2\<rparr>" "[120, 10, 121, 10, 122]"
          "[120]" "[[121], [122]]" "\<lambda>r. 1"] c
    by (simp add: bufferInv_def len_def)
qed

section \<open>The bracket matcher\<close>

lemma runesFrom_end: "length ls \<le> l \<Longrightarrow> runesFrom ls l c = []"
  by (simp add: runesFrom_def)

lemma runesFrom_rest:
  assumes "l < length ls"
  shows "runesFrom ls l c =
           map (\<lambda>j. ((l, j), ls ! l ! j)) [c..<length (ls ! l)] @ runesFrom ls (Suc l) 0"
proof -
  have u: "[l..<length ls] = l # [Suc l..<length ls]" using assms by (simp add: upt_conv_Cons)
  have m: "map (\<lambda>i. map (\<lambda>j. ((i, j), ls ! i ! j)) [(if i = l then c else 0)..<length (ls ! i)])
            [Suc l..<length ls]
        = map (\<lambda>i. map (\<lambda>j. ((i, j), ls ! i ! j)) [0..<length (ls ! i)])
            [Suc l..<length ls]"
    by (rule map_cong) auto
  show ?thesis by (simp add: runesFrom_def u m)
qed

lemma runesFrom_nextLine:
  "l < length ls \<Longrightarrow> length (ls ! l) \<le> c \<Longrightarrow> runesFrom ls l c = runesFrom ls (Suc l) 0"
  by (simp add: runesFrom_rest)

lemma runesFrom_step:
  "l < length ls \<Longrightarrow> c < length (ls ! l) \<Longrightarrow>
     runesFrom ls l c = ((l, c), ls ! l ! c) # runesFrom ls l (Suc c)"
  by (simp add: runesFrom_rest[of l ls c] runesFrom_rest[of l ls "Suc c"] upt_conv_Cons)

lemma closingLoop_scan:
  "0 \<le> li \<Longrightarrow> 0 \<le> ci \<Longrightarrow>
   closingLoop ls op cl sl sc n li ci
     = map_option (\<lambda>(i, j). \<lparr>OpenLine = sl, OpenCol = sc, CloseLine = int i, CloseCol = int j\<rparr>)
         (counterScan op cl n (runesFrom ls (nat li) (nat ci)))"
proof (induction ls op cl sl sc n li ci rule: closingLoop.induct)
  case (1 ls op cl startLine startCol nesting lineIdx colIdx)
  show ?case
  proof (cases "lineIdx < len ls")
    case False
    then show ?thesis using 1(6)
      by (subst closingLoop.simps) (simp add: runesFrom_end len_def)
  next
    case l: True
    then have l': "nat lineIdx < length ls" using 1(6) by (simp add: len_def)
    have s: "nat (lineIdx + 1) = Suc (nat lineIdx)" using 1(6) by simp
    show ?thesis
    proof (cases "colIdx < len (ls ! nat lineIdx)")
      case False
      then have "length (ls ! nat lineIdx) \<le> nat colIdx" using 1(7) by (simp add: len_def)
      from runesFrom_nextLine[OF l' this] 1(5)[OF l _ refl False] l 1(6) False s
      show ?thesis
        by (subst closingLoop.simps) (simp add: Let_def)
    next
      case c: True
      then have c': "nat colIdx < length (ls ! nat lineIdx)" using 1(7) by (simp add: len_def)
      have sc: "nat (colIdx + 1) = Suc (nat colIdx)" using 1(7) by simp
      have r: "\<not> (lineIdx < 0 \<or> len ls \<le> lineIdx)" using l 1(6) by simp
      have r2: "\<not> (colIdx < 0 \<or> len (ls ! nat lineIdx) \<le> colIdx)" using c 1(7) by simp
      note ih2 = 1(2)[OF l r refl c r2 refl]
      note ih3 = 1(3)[OF l r refl c r2 refl]
      note ih4 = 1(4)[OF l r refl c r2 refl]
      show ?thesis
        using ih2 ih3 ih4 1(6) 1(7) l c sc
        by (subst closingLoop.simps)
           (simp add: Let_def runesFrom_step[OF l' c'])
    qed
  qed
qed

lemma openingInner_le:
  "openingInner ls op cl sl sc runes n li ci = Inr (n', li', ci') \<Longrightarrow> li' \<le> li"
proof (induction ls op cl sl sc runes n li ci rule: openingInner.induct)
  case (1 ls op cl startLine startCol runes nesting lineIdx colIdx)
  from 1(3) show ?case
    apply (subst (asm) openingInner.simps)
    apply (simp add: Let_def split: if_splits)
    using 1(1) 1(2) apply (auto simp: Let_def split: if_splits)
    apply (metis less_imp_le)+
    done
qed

lemma openingOuter_fuel:
  "li < int fuel \<Longrightarrow> \<exists>r. openingOuter fuel ls op cl sl sc n li ci = Some r"
proof (induction fuel arbitrary: n li ci)
  case 0
  then show ?case by simp
next
  case (Suc fuel)
  show ?case
  proof (cases "li \<ge> 0 \<and> \<not> (li < 0 \<or> li \<ge> len ls)")
    case False
    then show ?thesis by auto
  next
    case t: True
    show ?thesis
    proof (cases "ci < 0")
      case True
      have "li - 1 < int fuel" using Suc.prems by simp
      from Suc.IH[OF this] t True show ?thesis by (simp add: Let_def)
    next
      case False
      show ?thesis
      proof (cases "openingInner ls op cl sl sc (ls ! nat li) n li ci")
        case (Inl a)
        then show ?thesis using t False by simp
      next
        case (Inr b)
        obtain n' li' ci' where b: "b = (n', li', ci')" by (cases b) auto
        have "li' \<le> li" using openingInner_le Inr b by blast
        then have "li' - 1 < int fuel" using Suc.prems by simp
        from Suc.IH[OF this] t False Inr b show ?thesis by (simp add: Let_def)
      qed
    qed
  qed
qed

lemma findMatchingBracket_returns: "\<exists>r. findMatchingBracket ls li ci = Some r"
proof -
  have "\<exists>r. findOpeningBracket ls li ci op cl = Some r" for op cl
    using openingOuter_fuel[of li "nat li + 1" ls op cl li ci 1 "ci - 1"]
    by (auto simp: findOpeningBracket_def)
  then show ?thesis
    by (auto simp: findMatchingBracket_def Let_def split: option.splits)
qed

lemma scenario_forward:
  "findMatchingBracket [[40, 97, 40, 98, 41, 99, 41]] 0 0
     = Some (Some \<lparr>OpenLine = 0, OpenCol = 0, CloseLine = 0, CloseCol = 6\<rparr>)"
  by code_simp

lemma scenario_backward:
  "findMatchingBracket [[40, 97, 40, 98, 41, 99, 41]] 0 6
     = Some (Some \<lparr>OpenLine = 0, OpenCol = 0, CloseLine = 0, CloseCol = 6\<rparr>)"
  by code_simp

lemma counterScan_example:
  "counterScan 40 41 1 (runesAfter [[40, 97], [40, 98, 41], [99, 41]] 0 0) = Some (2, 1)"
  by code_simp

text \<open>
  C8.  A query on an opening bracket at line \<open>l\<close>, column \<open>c\<close> returns what the counter
  scan of the specification finds in the runes behind that position, taken in document
  order across the line boundaries: the counter starts at 1, goes up on the same opening
  bracket and down on its closing bracket, and the pair closes at the first position
  where the counter reaches 0; when it never does, the result is nil.  Every query
  returns, with a pair or nil.  On the one-line document \<open>(a(b)c)\<close> the query at
  column 0 and the query at column 6 both return the pair of columns 0 and 6.
\<close>

theorem findMatchingBracket_forward_scan:
  "(l < length ls \<and> c < length (ls ! l) \<and> openBrackets (ls ! l ! c) = Some closing \<longrightarrow>
      findMatchingBracket ls (int l) (int c)
        = Some (map_option
                  (\<lambda>(i, j). \<lparr>OpenLine = int l, OpenCol = int c,
                              CloseLine = int i, CloseCol = int j\<rparr>)
                  (counterScan (ls ! l ! c) closing 1 (runesAfter ls l c))))
   \<and> (\<exists>r. findMatchingBracket ls lineIdx colIdx = Some r)
   \<and> findMatchingBracket [[40, 97, 40, 98, 41, 99, 41]] 0 0
        = Some (Some \<lparr>OpenLine = 0, OpenCol = 0, CloseLine = 0, CloseCol = 6\<rparr>)
   \<and> findMatchingBracket [[40, 97, 40, 98, 41, 99, 41]] 0 6
        = Some (Some \<lparr>OpenLine = 0, OpenCol = 0, CloseLine = 0, CloseCol = 6\<rparr>)"
proof -
  have 1: "findMatchingBracket ls (int l) (int c)
        = Some (map_option
                  (\<lambda>(i, j). \<lparr>OpenLine = int l, OpenCol = int c,
                              CloseLine = int i, CloseCol = int j\<rparr>)
                  (counterScan (ls ! l ! c) closing 1 (runesAfter ls l c)))"
    if h: "l < length ls" "c < length (ls ! l)" "openBrackets (ls ! l ! c) = Some closing"
  proof -
    have s: "nat (int c + 1) = Suc c" by simp
    have "findMatchingBracket ls (int l) (int c)
            = Some (closingLoop ls (ls ! l ! c) closing (int l) (int c) 1 (int l) (int c + 1))"
      using h by (simp add: findMatchingBracket_def findClosingBracket_def len_def)
    also have "closingLoop ls (ls ! l ! c) closing (int l) (int c) 1 (int l) (int c + 1)
            = map_option
                  (\<lambda>(i, j). \<lparr>OpenLine = int l, OpenCol = int c,
                              CloseLine = int i, CloseCol = int j\<rparr>)
                  (counterScan (ls ! l ! c) closing 1 (runesFrom ls l (Suc c)))"
      using closingLoop_scan[of "int l" "int c + 1" ls "ls ! l ! c" closing "int l" "int c" 1]
      by (simp only: s nat_int)
    finally show ?thesis by (simp add: runesAfter_def)
  qed
  from 1 findMatchingBracket_returns[of ls lineIdx colIdx] scenario_forward scenario_backward
  show ?thesis by blast
qed

theorem findMatchingBracket_forward_scan_witness:
  "findMatchingBracket [[40, 97], [40, 98, 41], [99, 41]] 0 0
     = Some (Some \<lparr>OpenLine = 0, OpenCol = 0, CloseLine = 2, CloseCol = 1\<rparr>)"
  using findMatchingBracket_forward_scan [of 0 "[[40, 97], [40, 98, 41], [99, 41]]" 0 41]
  by (simp add: openBrackets_def counterScan_example)

section \<open>The history stacks and the dirty flag\<close>

lemma cursorClamp_hist [simp]:
  "undoStack (cursorClamp e) = undoStack e" "redoStack (cursorClamp e) = redoStack e"
  "dirty (cursorClamp e) = dirty e" "filename (cursorClamp e) = filename e"
  by (simp_all add: cursorClamp_def Let_def)

lemma visibleClamp_hist [simp]:
  "undoStack (visibleClamp e) = undoStack e" "redoStack (visibleClamp e) = redoStack e"
  "dirty (visibleClamp e) = dirty e" "filename (visibleClamp e) = filename e"
  by (simp_all add: visibleClamp_def Let_def)

lemma ensureVisible_hist [simp]:
  "undoStack (ensureVisible rw e) = undoStack e" "redoStack (ensureVisible rw e) = redoStack e"
  "dirty (ensureVisible rw e) = dirty e" "filename (ensureVisible rw e) = filename e"
  using ensureVisible_eq[of rw e] by auto

lemma insertRune_hist:
  "insertRune r e = Inr e' \<Longrightarrow>
   undoStack e' = undoStack e @ [snapshot e] \<and> redoStack e' = [] \<and> dirty e'"
  unfolding insertRune_def Let_def
  by (auto simp: bindE_Inr_iff pushUndo_def split: if_splits)

lemma backspace_hist:
  "backspace e = Inr e' \<Longrightarrow>
   (undoStack e' = undoStack e @ [snapshot e] \<and> redoStack e' = [] \<and> dirty e') \<or> e' = e"
  unfolding backspace_def Let_def
  by (auto simp: bindE_Inr_iff pushUndo_def split: if_splits)

lemma newline_hist:
  "newline e = Inr e' \<Longrightarrow>
   undoStack e' = undoStack e @ [snapshot e] \<and> redoStack e' = [] \<and> dirty e'"
  unfolding newline_def Let_def
  by (auto simp: bindE_Inr_iff pushUndo_def)

lemma insertTextPrepare_hist [simp]:
  "undoStack (insertTextPrepare e) = undoStack e" "redoStack (insertTextPrepare e) = redoStack e"
  by (simp_all add: insertTextPrepare_def Let_def)

lemma insertMiddle_hist [simp]:
  "undoStack (insertMiddle e ms) = undoStack e \<and> redoStack (insertMiddle e ms) = redoStack e"
  by (induction ms arbitrary: e) (simp_all add: insertMiddle_def)

lemma insertTextEdit_hist [simp]:
  "undoStack (insertTextEdit ps e) = undoStack e" "redoStack (insertTextEdit ps e) = redoStack e"
  "dirty (insertTextEdit ps e)"
  by (simp_all add: insertTextEdit_def Let_def)

lemma insertTextAtCursor_hist:
  "undoStack (insertTextAtCursor rw t e) = undoStack e @ [snapshot e]
   \<and> redoStack (insertTextAtCursor rw t e) = [] \<and> dirty (insertTextAtCursor rw t e)"
  by (simp add: insertTextAtCursor_def Let_def splitNL_nonempty pushUndo_def)



lemma pasteFromClipboard_hist:
  "pasteFromClipboard rw (Some t) e = Inr e' \<Longrightarrow>
   undoStack e' = undoStack e @ [snapshot e] \<and> redoStack e' = [] \<and> dirty e'"
  apply (simp add: pasteFromClipboard_def Let_def splitNL_nonempty)
  apply (erule bindE_InrE)+
  apply (auto simp: pushUndo_def split: if_splits prod.splits)
  done


lemma cutLine_hist:
  "(undoStack (cutLine rw e0) = undoStack e0 @ [snapshot e0] \<and> redoStack (cutLine rw e0) = []
    \<and> dirty (cutLine rw e0)) \<or> cutLine rw e0 = e0"
proof (cases "cy e0 \<ge> 0 \<and> cy e0 < len (lines e0)")
  case False
  then have c: "(cy e0 \<ge> 0 \<and> cy e0 < len (lines e0)) = False" by simp
  have "cutLine rw e0 = e0" unfolding cutLine_def c by simp
  then show ?thesis by simp
next
  case True
  define e where "e = pushUndo e0"
  define e1 where "e1 = e\<lparr>clipboard := lines e ! nat (cy e),
                   lines := take (nat (cy e)) (lines e) @ drop (nat (cy e + 1)) (lines e)\<rparr>"
  define e2 where "e2 = (if cy e1 \<ge> len (lines e1) \<and> len (lines e1) > 0
                  then e1\<lparr>cy := len (lines e1) - 1\<rparr> else e1)"
  define e3 where "e3 = (if len (lines e2) = 0 then e2\<lparr>lines := [[]], cy := 0, cx := 0\<rparr>
                  else if cx e2 > len (lines e2 ! nat (cy e2))
                       then e2\<lparr>cx := len (lines e2 ! nat (cy e2))\<rparr> else e2)"
  have c: "cutLine rw e0 = ensureVisible rw (e3\<lparr>dirty := True\<rparr>)"
    using True unfolding cutLine_def e3_def e2_def e1_def e_def Let_def by simp
  have 1: "undoStack e1 = undoStack e0 @ [snapshot e0]" "redoStack e1 = []"
    by (simp_all add: e1_def e_def pushUndo_def)
  have 2: "undoStack e2 = undoStack e1" "redoStack e2 = redoStack e1"
    by (simp_all add: e2_def)
  have 3: "undoStack e3 = undoStack e2" "redoStack e3 = redoStack e2"
    by (simp_all add: e3_def)
  show ?thesis using c 1 2 3 by simp
qed


lemma deleteSelectionBody_hist:
  assumes "deleteSelectionBody e r = Inr e'"
  shows "undoStack e' = undoStack e"
proof -
  obtain startLine0 startCol0 endLine0 endCol0 where r: "r = (startLine0, startCol0, endLine0, endCol0)"
    by (cases r) auto
  define startLine1 where "startLine1 = (if startLine0 < 0 then 0 else startLine0)"
  define endLine1 where "endLine1 = (if endLine0 \<ge> len (lines e) then len (lines e) - 1 else endLine0)"
  define startLine where "startLine = (if startLine1 > endLine1 then endLine1 else startLine1)"
  define endLine where "endLine = (if startLine1 > endLine1 then startLine1 else endLine1)"
  define startCol where "startCol = (if startCol0 < 0 then 0 else startCol0)"
  define endColA where "endColA = (if endCol0 > len (lines e ! nat startLine)
                                   then len (lines e ! nat startLine) else endCol0)"
  define endColB where "endColB = (if endCol0 > len (lines e ! nat endLine)
                                   then len (lines e ! nat endLine) else endCol0)"
  note defs = startLine1_def[symmetric] endLine1_def[symmetric] startLine_def[symmetric]
    endLine_def[symmetric] startCol_def[symmetric] endColA_def[symmetric] endColB_def[symmetric]
  have b: "deleteSelectionBody e r =
        (if lineSelecting e then
             bindE (sliceTo (lines e) startLine) (\<lambda>a.
             bindE (sliceFrom (lines e) (endLine + 1)) (\<lambda>b.
               let e1 = e\<lparr>lines := a @ b, cy := startLine\<rparr>;
                   e2 = (if cy e1 \<ge> len (lines e1) then e1\<lparr>cy := len (lines e1) - 1\<rparr> else e1)
               in Inr (if cy e2 < 0 then e2\<lparr>cy := 0, cx := 0\<rparr> else e2\<lparr>cx := 0\<rparr>)))
           else if startLine = endLine then
             (if startLine \<ge> 0 \<and> startLine < len (lines e) then
                bindE
                     (if startCol < endColA then
                        bindE (sliceTo (lines e ! nat startLine) startCol) (\<lambda>a.
                        bindE (sliceFrom (lines e ! nat startLine) endColA) (\<lambda>b.
                          Inr (e\<lparr>lines := (lines e)[nat startLine := a @ b]\<rparr>)))
                      else Inr e)
                     (\<lambda>e1. Inr (e1\<lparr>cx := startCol, cy := startLine\<rparr>))
              else Inr e)
           else
             (if startLine \<ge> 0 \<and> startLine < len (lines e)
                 \<and> endLine \<ge> 0 \<and> endLine < len (lines e) then
                bindE
                     (if startCol \<le> len (lines e ! nat startLine) \<and> endColB \<le> len (lines e ! nat endLine) then
                        bindE (sliceTo (lines e ! nat startLine) startCol) (\<lambda>a.
                        bindE (sliceFrom (lines e ! nat endLine) endColB) (\<lambda>b.
                        bindE (sliceTo (lines e) startLine) (\<lambda>pre.
                        bindE (sliceFrom (lines e) (endLine + 1)) (\<lambda>post.
                          Inr (e\<lparr>lines := pre @ [a @ b] @ post\<rparr>)))))
                      else Inr e)
                     (\<lambda>e1. Inr (e1\<lparr>cy := startLine, cx := startCol\<rparr>))
              else Inr e))"
    unfolding deleteSelectionBody_def r prod.case Let_def defs ..
  show ?thesis
  proof (cases "lineSelecting e")
    case True
    with assms b show ?thesis
      by (auto simp: bindE_Inr_iff Let_def split: if_splits)
  next
    case False
    show ?thesis
    proof (cases "startLine = endLine")
      case True
      with assms b False show ?thesis
        by (auto simp: bindE_Inr_iff split: if_splits)
    next
      case f: False
      with assms b False show ?thesis
        by (auto simp: bindE_Inr_iff split: if_splits)
    qed
  qed
qed


lemma deleteSelectionFinish_hist [simp]:
  "undoStack (deleteSelectionFinish e0) = undoStack e0"
  "redoStack (deleteSelectionFinish e0) = []"
  "dirty (deleteSelectionFinish e0)"
proof -
  define e1 where "e1 = (endSelection e0)\<lparr>dirty := True, redoStack := []\<rparr>"
  define e2 where "e2 = (if cy e1 < 0 then e1\<lparr>cy := 0\<rparr> else e1)"
  define e3 where "e3 = (if cy e2 \<ge> len (lines e2)
                then (if len (lines e2) - 1 < 0 then e2\<lparr>cy := 0\<rparr> else e2\<lparr>cy := len (lines e2) - 1\<rparr>)
                else e2)"
  define e4 where "e4 = (if cx e3 < 0 then e3\<lparr>cx := 0\<rparr> else e3)"
  have d: "deleteSelectionFinish e0 =
             (if cy e4 < len (lines e4)
              then (if cx e4 > len (lines e4 ! nat (cy e4))
                    then e4\<lparr>cx := len (lines e4 ! nat (cy e4))\<rparr> else e4)
              else e4)"
    unfolding deleteSelectionFinish_def Let_def e4_def e3_def e2_def e1_def ..
  have 1: "undoStack e1 = undoStack e0" "redoStack e1 = []" "dirty e1"
    by (simp_all add: e1_def endSelection_def)
  have 2: "undoStack e2 = undoStack e1" "redoStack e2 = redoStack e1" "dirty e2 = dirty e1"
    by (simp_all add: e2_def)
  have 3: "undoStack e3 = undoStack e2" "redoStack e3 = redoStack e2" "dirty e3 = dirty e2"
    by (simp_all add: e3_def)
  have 4: "undoStack e4 = undoStack e3" "redoStack e4 = redoStack e3" "dirty e4 = dirty e3"
    by (simp_all add: e4_def)
  show "undoStack (deleteSelectionFinish e0) = undoStack e0"
    "redoStack (deleteSelectionFinish e0) = []"
    "dirty (deleteSelectionFinish e0)"
    using 1 2 3 4 by (simp_all add: d)
qed

lemma deleteSelection_hist:
  assumes "deleteSelection e = Inr e'"
  shows "(undoStack e' = undoStack e @ [snapshot e] \<and> redoStack e' = [] \<and> dirty e') \<or> e' = e"
proof (cases "selecting e")
  case False
  with assms show ?thesis by (simp add: deleteSelection_def)
next
  case True
  with assms have "bindE (getSelectionRange (pushUndo e)) (\<lambda>r.
           bindE (deleteSelectionBody (pushUndo e) r) (\<lambda>e3. Inr (deleteSelectionFinish e3))) = Inr e'"
    by (simp add: deleteSelection_def Let_def)
  then obtain r e3 where "deleteSelectionBody (pushUndo e) r = Inr e3" and "e' = deleteSelectionFinish e3"
    by (auto simp: bindE_Inr_iff)
  then show ?thesis using deleteSelectionBody_hist[of "pushUndo e" r e3]
    by (simp add: pushUndo_def)
qed



lemma applyEdit_hist:
  "applyEdit rw ed e = Inr e' \<Longrightarrow>
   (undoStack e' = undoStack e @ [snapshot e] \<and> redoStack e' = [] \<and> dirty e') \<or> e' = e"
  using insertRune_hist[of _ e e'] backspace_hist[of e e'] newline_hist[of e e']
    insertTextAtCursor_hist[of rw _ e] pasteFromClipboard_hist[of rw _ e e'] cutLine_hist[of rw e]
    deleteSelection_hist[of e e']
  by (cases ed) (auto simp: applyEdit_def)




lemma undo_dirty: "dirty (undo rw e) = dirty e"
  by (simp add: undo_def Let_def)

lemma undo_restore:
  assumes "undoStack e = st @ [snapshot e0]" and "bufferInv e0"
  shows "lines (undo rw e) = lines e0 \<and> cx (undo rw e) = cx e0 \<and> cy (undo rw e) = cy e0"
proof -
  define X where "X = e\<lparr>redoStack := redoStack e @ [snapshot e], undoStack := st,
                         lines := lines e0, cx := cx e0, cy := cy e0\<rparr>"
  have u: "undo rw e = ensureVisible rw X"
    using assms(1) by (simp add: undo_def Let_def X_def snapshot_def)
  have b: "bufferInv X" using assms(2) by (simp add: bufferInv_def X_def)
  show ?thesis
    using ensureVisible_lines[OF b, of rw] ensureVisible_cx[OF b, of rw] ensureVisible_cy[OF b, of rw]
    by (simp add: u) (simp add: X_def)
qed





lemma NewEditor_dirty: "\<not> dirty (NewEditor path content)"
  by (simp add: NewEditor_def Let_def)

lemma openFile_dirty: "\<not> dirty (openFile rw path (Some data) e)"
  by (simp add: openFile_def)






text \<open>
  C6 as stated fails: the dirty flag is not a comparison with the persisted content.
  The file \<open>a\<close> is loaded and saved; the rune \<open>b\<close> is typed and the edit undone.  The
  buffer is then the persisted content again, and the flag is still set.
\<close>

theorem dirty_after_undo_counterexample:
  "persist True (NewEditor [102] (Some [97]), Map.empty)
     = (True, NewEditor [102] (Some [97]), [[102] \<mapsto> [97]])
   \<and> insertRune 98 (NewEditor [102] (Some [97]))
     = Inr ((NewEditor [102] (Some [97]))
             \<lparr>lines := [[98, 97]], cx := 1, dirty := True,
              undoStack := [\<lparr>Lines = [[97]], Cx = 0, Cy = 0\<rparr>]\<rparr>)
   \<and> joinNL (lines (undo (\<lambda>r. 1)
        ((NewEditor [102] (Some [97]))
             \<lparr>lines := [[98, 97]], cx := 1, dirty := True,
              undoStack := [\<lparr>Lines = [[97]], Cx = 0, Cy = 0\<rparr>]\<rparr>))) = [97]
   \<and> dirty (undo (\<lambda>r. 1)
        ((NewEditor [102] (Some [97]))
             \<lparr>lines := [[98, 97]], cx := 1, dirty := True,
              undoStack := [\<lparr>Lines = [[97]], Cx = 0, Cy = 0\<rparr>]\<rparr>))"
proof -
  have f: "fileLines [97] = [[97]]" by code_simp
  define E0 where "E0 = NewEditor [102] (Some [97])"
  have l0: "lines E0 = [[97]]" "cx E0 = 0" "cy E0 = 0" "undoStack E0 = []"
    by (simp_all add: E0_def NewEditor_def f)
  have b0: "bufferInv E0" using l0 by (simp add: bufferInv_def len_def)
  define E1 where "E1 = E0\<lparr>lines := [[98, 97]], cx := 1, dirty := True,
              undoStack := [\<lparr>Lines = [[97]], Cx = 0, Cy = 0\<rparr>]\<rparr>"
  have 1: "persist True (E0, Map.empty) = (True, E0, [[102] \<mapsto> [97]])"
    using l0 by (simp add: persist_def) (simp add: E0_def NewEditor_def)
  have 2: "insertRune 98 E0 = Inr E1"
    using l0 by (simp add: E1_def insertRune_def pushUndo_def snapshot_def bindE_def
        index_def sliceTo_def sliceFrom_def slice_def len_def Let_def)
       (simp add: E0_def NewEditor_def)
  have u: "undoStack E1 = [] @ [snapshot E0]"
    using l0 by (simp add: E1_def snapshot_def)
  have 3: "joinNL (lines (undo (\<lambda>r. 1) E1)) = [97]"
    using undo_restore[OF u b0, of "\<lambda>r. 1"] l0 by simp
  have 4: "dirty (undo (\<lambda>r. 1) E1)"
    by (simp add: undo_dirty E1_def)
  from 1 2 3 4 show ?thesis unfolding E1_def E0_def by simp
qed

text \<open>
  C6, as the code has it.  The dirty flag is clear when a file has been loaded and when
  a save has succeeded, which writes the lines joined with \<open>\n\<close>.  Every snapshot push
  sets it, and so does every edit operation that changes the state.  undo does not
  clear it: after an edit and its undo the flag is set, whatever the content.
\<close>

theorem dirty_flag_laws:
  "\<not> dirty (NewEditor path content)
   \<and> \<not> dirty (openFile rw path (Some data) e)
   \<and> persist True (e, d) = (True, e\<lparr>dirty := False\<rparr>, d(filename e \<mapsto> joinNL (lines e)))
   \<and> dirty (pushUndo e)
   \<and> (applyEdit rw ed e = Inr e' \<and> e' \<noteq> e \<longrightarrow> dirty e')
   \<and> (dirty u \<longrightarrow> dirty (undo rw u))"
proof -
  have 5: "dirty e'" if "applyEdit rw ed e = Inr e'" and "e' \<noteq> e"
    using applyEdit_hist[OF that(1)] that(2) by auto
  have 3: "persist True (e, d) = (True, e\<lparr>dirty := False\<rparr>, d(filename e \<mapsto> joinNL (lines e)))"
    by (simp add: persist_def)
  have 4: "dirty (pushUndo e)" by (simp add: pushUndo_def)
  from NewEditor_dirty[of path content] openFile_dirty[of rw path data e] 3 4 5 undo_dirty[of rw u]
  show ?thesis by blast
qed

theorem dirty_flag_laws_witness:
  "dirty ((NewEditor [] None)\<lparr>lines := [[97]], cx := 1, dirty := True,
              undoStack := [\<lparr>Lines = [[]], Cx = 0, Cy = 0\<rparr>]\<rparr>)
   \<and> dirty (undo (\<lambda>r. 1) ((NewEditor [] None)\<lparr>lines := [[97]], cx := 1, dirty := True,
              undoStack := [\<lparr>Lines = [[]], Cx = 0, Cy = 0\<rparr>]\<rparr>))"
  using dirty_flag_laws [where rw = "\<lambda>r. 1" and ed = "InsertRune 97" and e = "NewEditor [] None"
      and e' = "(NewEditor [] None)\<lparr>lines := [[97]], cx := 1, dirty := True,
              undoStack := [\<lparr>Lines = [[]], Cx = 0, Cy = 0\<rparr>]\<rparr>"
      and u = "(NewEditor [] None)\<lparr>lines := [[97]], cx := 1, dirty := True,
              undoStack := [\<lparr>Lines = [[]], Cx = 0, Cy = 0\<rparr>]\<rparr>"]
  by (simp add: NewEditor_def applyEdit_def insertRune_def
      pushUndo_def snapshot_def bindE_def index_def sliceTo_def sliceFrom_def slice_def
      len_def Let_def)

end
